theory Spec2Isabelle
  imports Complex_Main "HOL-Library.Word" "HOL-Library.AList" "HOL-Library.Log_Nat"
begin

unbundle bit_operations_syntax

section \<open>Python values used by ddos\_filtering\<close>

text \<open>
  The exceptions that the modelled code can raise. An uncaught exception ends the
  run, so every function that can raise returns \<open>py_error + 'a\<close>, with \<open>Inl\<close>
  for the exception. \<open>SystemExit\<close> carries the exit status that \<open>argparse\<close>
  passes to \<open>sys.exit\<close>.
\<close>

datatype py_error =
    ZeroDivisionError
  | ValueError
  | AttributeError
  | NetmaskValueError
  | OSError
  | SystemExit int

text \<open>
  A Python \<open>dict\<close> keeps its keys in insertion order and holds each key once. It is
  modelled as an association list: \<open>d.get(k, default)\<close> reads the entry of \<open>k\<close>,
  \<open>d[k] = v\<close> replaces the entry of \<open>k\<close> in place or appends a new entry at the
  end, \<open>k in d\<close> tests the key, \<open>len(d)\<close> is the length and \<open>d.items()\<close> is
  the list itself.
\<close>

type_synonym ('k, 'v) dict = "('k \<times> 'v) list"

definition dict_get :: "('k, 'v) dict \<Rightarrow> 'k \<Rightarrow> 'v \<Rightarrow> 'v" where
  "dict_get d k dflt = (case map_of d k of None \<Rightarrow> dflt | Some v \<Rightarrow> v)"

definition dict_set :: "('k, 'v) dict \<Rightarrow> 'k \<Rightarrow> 'v \<Rightarrow> ('k, 'v) dict" where
  "dict_set d k v = AList.update k v d"

definition dict_contains :: "('k, 'v) dict \<Rightarrow> 'k \<Rightarrow> bool" where
  "dict_contains d k = (map_of d k \<noteq> None)"

text \<open>The keys of a \<open>dict\<close> are pairwise different.\<close>

definition dict_ok :: "('k, 'v) dict \<Rightarrow> bool" where
  "dict_ok d = distinct (map fst d)"

section \<open>The data model\<close>

datatype ipaddress = IPv4Address "32 word" | IPv6Address "128 word"

text \<open>
  \<open>dict[IPv4Address | IPv6Address, dict[int, int]]\<close>: for every source network
  the packet count of every time bucket.
\<close>

type_synonym buckets = "(int, int) dict"
type_synonym countmap = "(ipaddress, buckets) dict"

definition countmap_ok :: "countmap \<Rightarrow> bool" where
  "countmap_ok data = (dict_ok data \<and> list_all (\<lambda>(ip, bs). dict_ok bs) data)"

text \<open>
  What a CountMap denotes when the order of insertion is forgotten: the inner
  mapping of every source key that is present.
\<close>

definition countmap_get :: "countmap \<Rightarrow> ipaddress \<Rightarrow> (int \<rightharpoonup> int) option" where
  "countmap_get data ip = map_option map_of (map_of data ip)"

section \<open>merge\_data\<close>

text \<open>
  \<^verbatim>\<open>
  for time, count in data.items():
      data_a[src_addr][time] = data_a[src_addr].get(time, 0) + count
  \<close>
  with \<open>acc\<close> the inner dict \<open>data_a[src_addr]\<close>.
\<close>

fun merge_buckets :: "buckets \<Rightarrow> (int \<times> int) list \<Rightarrow> buckets" where
  "merge_buckets acc [] = acc"
| "merge_buckets acc ((time, count) # rest) =
     merge_buckets (dict_set acc time (dict_get acc time 0 + count)) rest"

text \<open>
  \<^verbatim>\<open>
  for src_addr, data in data_b.items():
      if src_addr not in data_a:
          data_a[src_addr] = data
          continue
      for time, count in data.items(): ...
  \<close>
\<close>

fun merge_loop :: "countmap \<Rightarrow> (ipaddress \<times> buckets) list \<Rightarrow> countmap" where
  "merge_loop data_a [] = data_a"
| "merge_loop data_a ((src_addr, data) # rest) =
     (if \<not> dict_contains data_a src_addr
      then merge_loop (dict_set data_a src_addr data) rest
      else merge_loop
             (dict_set data_a src_addr (merge_buckets (dict_get data_a src_addr []) data))
             rest)"

text \<open>The smaller dict is placed into \<open>data_a\<close> before the loop.\<close>

definition merge_data :: "countmap \<Rightarrow> countmap \<Rightarrow> countmap" where
  "merge_data data_a data_b =
     (if length data_a > length data_b
      then merge_loop data_b data_a
      else merge_loop data_a data_b)"

text \<open>
  The pointwise sum of two sparse bucket mappings and of two CountMaps: a key of
  one side only keeps its entry, a key of both sides gets the sum.
\<close>

definition add_counts :: "(int \<rightharpoonup> int) \<Rightarrow> (int \<rightharpoonup> int) \<Rightarrow> (int \<rightharpoonup> int)" where
  "add_counts f g t =
     (case f t of
        None \<Rightarrow> g t
      | Some x \<Rightarrow> (case g t of None \<Rightarrow> Some x | Some y \<Rightarrow> Some (x + y)))"

definition add_countmaps ::
  "(ipaddress \<Rightarrow> (int \<rightharpoonup> int) option) \<Rightarrow> (ipaddress \<Rightarrow> (int \<rightharpoonup> int) option)
     \<Rightarrow> ipaddress \<Rightarrow> (int \<rightharpoonup> int) option" where
  "add_countmaps F G ip =
     (case F ip of
        None \<Rightarrow> G ip
      | Some f \<Rightarrow> (case G ip of None \<Rightarrow> Some f | Some g \<Rightarrow> Some (add_counts f g)))"

section \<open>Configuration\<close>

text \<open>
  An \<open>IPv4Network\<close> or \<open>IPv6Network\<close>: its network address and its prefix
  length (between 0 and the width of the address).
\<close>

datatype ipnetwork = IPv4Network "32 word" nat | IPv6Network "128 word" nat

record configuration =
  destination_addresses :: "ipnetwork list"
  aggregation_time :: int
  ipv4_aggregation :: int
  ipv6_aggregation :: int
  param_w_train :: int
  param_steady :: int
  param_heavy :: int

text \<open>\<open>Configuration()\<close>: every field at its default.\<close>

definition default_configuration :: configuration where
  "default_configuration =
     \<lparr> destination_addresses = [IPv4Network 0 0, IPv6Network 0 0],
       aggregation_time = 3600,
       ipv4_aggregation = 24,
       ipv6_aggregation = 48,
       param_w_train = 24,
       param_steady = 3,
       param_heavy = 128 \<rparr>"

section \<open>Networks of the ipaddress library\<close>

text \<open>
  The netmask of a prefix length, \<open>ALL_ONES ^ (ALL_ONES >> prefixlen)\<close>. A
  network built from a pair of an address and a prefix length refuses a prefix length
  outside the width of the address (\<open>NetmaskValueError\<close>); with \<open>strict=False\<close>
  its network address is the address with the host bits cleared.
\<close>

definition prefix_mask :: "nat \<Rightarrow> 'a::len word" where
  "prefix_mask prefixlen = (- 1) XOR drop_bit prefixlen (- 1)"

definition network_address :: "'a::len word \<Rightarrow> int \<Rightarrow> py_error + 'a word" where
  "network_address addr prefixlen =
     (if 0 \<le> prefixlen \<and> prefixlen \<le> int LENGTH('a)
      then Inr (addr AND prefix_mask (nat prefixlen))
      else Inl NetmaskValueError)"

text \<open>
  \<open>addr in net\<close>: false when the versions differ, otherwise
  \<open>addr & netmask == network_address\<close>.
\<close>

fun ip_in_network :: "ipaddress \<Rightarrow> ipnetwork \<Rightarrow> bool" where
  "ip_in_network (IPv4Address a) (IPv4Network n p) = (a AND prefix_mask p = n)"
| "ip_in_network (IPv6Address a) (IPv6Network n p) = (a AND prefix_mask p = n)"
| "ip_in_network (IPv4Address a) (IPv6Network n p) = False"
| "ip_in_network (IPv6Address a) (IPv4Network n p) = False"

section \<open>Integers and floats\<close>

text \<open>
  Python's \<open>int\<close> is unbounded and is modelled by \<open>int\<close>; \<open>a % b\<close> has the
  sign of \<open>b\<close>, as \<open>mod\<close> has, and raises for \<open>b = 0\<close>.
\<close>

definition int_mod :: "int \<Rightarrow> int \<Rightarrow> py_error + int" where
  "int_mod a b = (if b = 0 then Inl ZeroDivisionError else Inr (a mod b))"

text \<open>
  A Python \<open>float\<close> is a binary64 number. A finite float is modelled by the real
  number it denotes, and a float operation by the exact operation on the reals
  followed by rounding to the nearest float, ties to the even significand.

  \<open>binade x\<close> is the exponent \<open>e\<close> with \<open>2^e <= |x| < 2^(e+1)\<close>, \<open>ulp x\<close> the
  distance between neighbouring floats at \<open>x\<close> (a significand has 53 bits), and
  \<open>round_binary64 x\<close> the multiple of \<open>ulp x\<close> nearest to \<open>x\<close>. The exponent is
  not bounded here: infinities, NaN and subnormal numbers are outside the model, which
  so describes the runs in which no float operation overflows or underflows.
\<close>

definition round_half_even :: "real \<Rightarrow> int" where
  "round_half_even y =
     (let f = \<lfloor>y\<rfloor>
      in if y - of_int f < 1 / 2 then f
         else if 1 / 2 < y - of_int f then f + 1
         else if even f then f else f + 1)"

definition binade :: "real \<Rightarrow> int" where
  "binade x =
     (if 1 \<le> \<bar>x\<bar> then bitlen \<lfloor>\<bar>x\<bar>\<rfloor> - 1 else - bitlen (\<lceil>1 / \<bar>x\<bar>\<rceil> - 1))"

definition ulp :: "real \<Rightarrow> real" where
  "ulp x = 2 powi (binade x - 52)"

definition round_binary64 :: "real \<Rightarrow> real" where
  "round_binary64 x = (if x = 0 then 0 else ulp x * of_int (round_half_even (x / ulp x)))"

text \<open>
  \<^item> \<open>int(x)\<close> truncates towards zero.
  \<^item> An \<open>int\<close> operand of a float operation is converted to a float first.
  \<^item> \<open>x + y\<close>, \<open>x - y\<close> and \<open>x * y\<close> round the exact result.
  \<^item> \<open>x / y\<close> raises for \<open>y == 0.0\<close>.
  \<^item> \<open>x % y\<close> raises for \<open>y == 0.0\<close>; otherwise it is C's \<open>fmod\<close>, which is
    exact and has the sign of \<open>x\<close>, to which \<open>y\<close> is added (a float addition) when
    it is not zero and its sign differs from the sign of \<open>y\<close>.
  \<^item> A comparison of an \<open>int\<close> with a float compares the exact values.
\<close>

definition py_int :: "real \<Rightarrow> int" where
  "py_int x = (if 0 \<le> x then \<lfloor>x\<rfloor> else \<lceil>x\<rceil>)"

definition float_of_int :: "int \<Rightarrow> real" where
  "float_of_int i = round_binary64 (of_int i)"

definition float_add :: "real \<Rightarrow> real \<Rightarrow> real" where
  "float_add x y = round_binary64 (x + y)"

definition float_sub :: "real \<Rightarrow> real \<Rightarrow> real" where
  "float_sub x y = round_binary64 (x - y)"

definition float_mul :: "real \<Rightarrow> real \<Rightarrow> real" where
  "float_mul x y = round_binary64 (x * y)"

definition float_truediv :: "real \<Rightarrow> real \<Rightarrow> py_error + real" where
  "float_truediv x y = (if y = 0 then Inl ZeroDivisionError else Inr (round_binary64 (x / y)))"

definition fmod :: "real \<Rightarrow> real \<Rightarrow> real" where
  "fmod x y = x - y * of_int (py_int (x / y))"

definition float_rem :: "real \<Rightarrow> real \<Rightarrow> py_error + real" where
  "float_rem vx wx =
     (if wx = 0 then Inl ZeroDivisionError
      else Inr (let m = fmod vx wx in
                if m \<noteq> 0 then (if (wx < 0) \<noteq> (m < 0) then float_add m wx else m)
                else 0))"

section \<open>Datetimes\<close>

text \<open>
  A \<open>datetime\<close>: the reading of its clock fields (year to microsecond), counted in
  microseconds from the reading 1970-01-01T00:00:00, and its \<open>tzinfo\<close>, the offset
  from UTC in microseconds, or \<open>None\<close> for a naive value. The instant that an aware
  value denotes is its clock reading minus its offset.

  \<open>timestamp()\<close> divides the microseconds since the epoch by \<open>10**6\<close>, a true
  division of two integers. (A naive value is read in the local zone of the machine,
  taken to be UTC here; no naive value reaches \<open>timestamp()\<close> in this program,
  since \<open>optional_datetime\<close> attaches UTC to every value it returns.)
\<close>

record datetime =
  clock_us :: int
  tzinfo :: "int option"

definition instant_us :: "datetime \<Rightarrow> int" where
  "instant_us dt = clock_us dt - (case tzinfo dt of None \<Rightarrow> 0 | Some off \<Rightarrow> off)"

definition timestamp :: "datetime \<Rightarrow> real" where
  "timestamp dt = round_binary64 (of_int (instant_us dt) / 1000000)"

section \<open>Flow records\<close>

record nfflow =
  in_packets :: int
  dst_port :: int
  first_dt :: datetime
  last_dt :: datetime
  src_addr :: ipaddress
  dst_addr :: ipaddress

section \<open>stream\_filter\<close>

definition stream_filter :: "nfflow list \<Rightarrow> configuration \<Rightarrow> nfflow list" where
  "stream_filter stream config =
     filter (\<lambda>flow. dst_port flow = 53
                  \<and> list_ex (ip_in_network (dst_addr flow)) (destination_addresses config))
       stream"

section \<open>aggregate\_flows\<close>

text \<open>The source network: the source address masked to the aggregation prefix.\<close>

definition source_network :: "configuration \<Rightarrow> ipaddress \<Rightarrow> py_error + ipaddress" where
  "source_network config src =
     (case src of
        IPv4Address a \<Rightarrow>
          (case network_address a (ipv4_aggregation config) of
             Inl e \<Rightarrow> Inl e | Inr n \<Rightarrow> Inr (IPv4Address n))
      | IPv6Address a \<Rightarrow>
          (case network_address a (ipv6_aggregation config) of
             Inl e \<Rightarrow> Inl e | Inr n \<Rightarrow> Inr (IPv6Address n)))"

text \<open>\<open>t - (t % aggregation_time)\<close> on integers.\<close>

definition int_bucket :: "int \<Rightarrow> int \<Rightarrow> py_error + int" where
  "int_bucket t aggregation = (case int_mod t aggregation of Inl e \<Rightarrow> Inl e | Inr r \<Rightarrow> Inr (t - r))"

text \<open>
  The body of the spreading loop for packet \<open>i\<close>:
  \<^verbatim>\<open>
  time = first + i * time_delta_between_packets
  bucket = int(time - (time % config.aggregation_time))
  \<close>
\<close>

definition packet_time :: "real \<Rightarrow> real \<Rightarrow> int \<Rightarrow> real" where
  "packet_time first_ts delta i = float_add first_ts (float_mul (float_of_int i) delta)"

definition float_bucket :: "real \<Rightarrow> int \<Rightarrow> py_error + int" where
  "float_bucket time aggregation =
     (case float_rem time (float_of_int aggregation) of
        Inl e \<Rightarrow> Inl e
      | Inr m \<Rightarrow> Inr (py_int (float_sub time m)))"

text \<open>
  \<^verbatim>\<open>
  for i in range(flow.in_packets):
      ...
      data[src][bucket] = data[src].get(bucket, 0) + 1
  \<close>
  over the indices still to come, with \<open>bs\<close> the inner dict \<open>data[src]\<close>.
\<close>

fun spread_packets ::
  "int \<Rightarrow> real \<Rightarrow> real \<Rightarrow> int list \<Rightarrow> buckets \<Rightarrow> py_error + buckets" where
  "spread_packets aggregation first_ts delta [] bs = Inr bs"
| "spread_packets aggregation first_ts delta (i # rest) bs =
     (case float_bucket (packet_time first_ts delta i) aggregation of
        Inl e \<Rightarrow> Inl e
      | Inr bucket \<Rightarrow>
          spread_packets aggregation first_ts delta rest
            (dict_set bs bucket (dict_get bs bucket 0 + 1)))"

text \<open>
  \<open>aggregate_flows\<close> updates \<open>data\<close> in place; the model returns the updated
  CountMap, or the exception that ends the run.
\<close>

definition aggregate_flows ::
  "countmap \<Rightarrow> configuration \<Rightarrow> nfflow \<Rightarrow> py_error + countmap" where
  "aggregate_flows data config flow =
     (case source_network config (src_addr flow) of
        Inl e \<Rightarrow> Inl e
      | Inr src \<Rightarrow>
     (let first_ts = timestamp (first_dt flow);
          last_ts = timestamp (last_dt flow)
      in case int_bucket (py_int first_ts) (aggregation_time config) of
        Inl e \<Rightarrow> Inl e
      | Inr first_bucket \<Rightarrow>
     (case int_bucket (py_int last_ts) (aggregation_time config) of
        Inl e \<Rightarrow> Inl e
      | Inr last_bucket \<Rightarrow>
     (let data1 = (if \<not> dict_contains data src then dict_set data src [] else data);
          bs = dict_get data1 src []
      in if first_bucket = last_bucket
         then Inr (dict_set data1 src
                     (dict_set bs first_bucket (dict_get bs first_bucket 0 + in_packets flow)))
         else
           (let time_total = float_sub last_ts first_ts
            in case float_truediv time_total (float_of_int (in_packets flow - 1)) of
              Inl e \<Rightarrow> Inl e
            | Inr time_delta_between_packets \<Rightarrow>
           (case spread_packets (aggregation_time config) first_ts
                   time_delta_between_packets [0 .. in_packets flow - 1] bs of
              Inl e \<Rightarrow> Inl e
            | Inr bs' \<Rightarrow> Inr (dict_set data1 src bs')))))))"

section \<open>process\_netflow\_file\<close>

text \<open>The loop \<open>for flow in g: aggregate_flows(data, config, flow)\<close>.\<close>

fun aggregate_all ::
  "configuration \<Rightarrow> nfflow list \<Rightarrow> countmap \<Rightarrow> py_error + countmap" where
  "aggregate_all config [] data = Inr data"
| "aggregate_all config (flow # rest) data =
     (case aggregate_flows data config flow of
        Inl e \<Rightarrow> Inl e
      | Inr data' \<Rightarrow> aggregate_all config rest data')"

text \<open>
  \<open>nfdump_json(file)\<close> runs the external decoder and yields the decoded records
  one by one; it is given by what it yields: the records, and the exception that ends
  the stream if there is one.
\<close>

type_synonym decoded = "nfflow list \<times> py_error option"

definition process_netflow_file ::
  "decoded \<Rightarrow> configuration \<Rightarrow> py_error + countmap" where
  "process_netflow_file decoded config =
     (case aggregate_all config (stream_filter (fst decoded) config) [] of
        Inl e \<Rightarrow> Inl e
      | Inr data \<Rightarrow> (case snd decoded of None \<Rightarrow> Inr data | Some e \<Rightarrow> Inl e))"

section \<open>build\_allowlist\<close>

type_synonym allowlist = "(ipaddress, int) dict"

text \<open>The condition of the list comprehension: \<open>earliest_time <= time and time < now\<close>.\<close>

definition in_window :: "int \<Rightarrow> real \<Rightarrow> int \<Rightarrow> bool" where
  "in_window earliest_time now time = (earliest_time \<le> time \<and> of_int time < now)"

definition valid_traffic :: "int \<Rightarrow> real \<Rightarrow> buckets \<Rightarrow> int list" where
  "valid_traffic earliest_time now bs =
     map snd (filter (\<lambda>(time, traffic). in_window earliest_time now time) bs)"

text \<open>\<open>max\<close> of a list: \<open>ValueError\<close> for the empty list.\<close>

definition py_max :: "int list \<Rightarrow> py_error + int" where
  "py_max xs = (case xs of [] \<Rightarrow> Inl ValueError | x # rest \<Rightarrow> Inr (fold max rest x))"

fun allowlist_loop ::
  "configuration \<Rightarrow> int \<Rightarrow> real \<Rightarrow> (ipaddress \<times> buckets) list \<Rightarrow> allowlist
     \<Rightarrow> py_error + allowlist" where
  "allowlist_loop config earliest_time now [] allowlist = Inr allowlist"
| "allowlist_loop config earliest_time now ((ip, bs) # rest) allowlist =
     (let traffic = valid_traffic earliest_time now bs
      in if int (length traffic) < param_steady config
         then allowlist_loop config earliest_time now rest allowlist
         else (case py_max traffic of
                 Inl e \<Rightarrow> Inl e
               | Inr peak \<Rightarrow>
                   if peak < param_heavy config
                   then allowlist_loop config earliest_time now rest allowlist
                   else allowlist_loop config earliest_time now rest
                          (dict_set allowlist ip peak)))"

definition build_allowlist :: "countmap \<Rightarrow> configuration \<Rightarrow> real \<Rightarrow> py_error + allowlist" where
  "build_allowlist data config now =
     (case int_bucket (py_int now) (aggregation_time config) of
        Inl e \<Rightarrow> Inl e
      | Inr now_bucket \<Rightarrow>
          allowlist_loop config
            (now_bucket - aggregation_time config * param_w_train config) now data [])"

text \<open>
  The two values that \<open>build_allowlist\<close> computes before its loop, for a
  configuration whose \<open>aggregation_time\<close> is not zero:
  \<open>now_bucket = int(now) - (int(now) % config.aggregation_time)\<close> and
  \<open>earliest_time = now_bucket - config.aggregation_time * config.param_w_train\<close>.
\<close>

definition now_bucket :: "configuration \<Rightarrow> real \<Rightarrow> int" where
  "now_bucket config now = py_int now - py_int now mod aggregation_time config"

definition earliest_time :: "configuration \<Rightarrow> real \<Rightarrow> int" where
  "earliest_time config now =
     now_bucket config now - aggregation_time config * param_w_train config"

text \<open>
  The rule in the words of the specification: a source is listed when at least
  \<open>param_steady\<close> of its bucket counts lie in the window and the largest of them
  is at least \<open>param_heavy\<close>; its entry is that largest count.
\<close>

definition allowlist_entry :: "configuration \<Rightarrow> real \<Rightarrow> buckets \<Rightarrow> int option" where
  "allowlist_entry config now bs =
     (let counts = valid_traffic (earliest_time config now) now bs
      in if param_steady config \<le> int (length counts) \<and> param_heavy config \<le> Max (set counts)
         then Some (Max (set counts)) else None)"

section \<open>Packet totals\<close>

text \<open>
  The packets held by an inner dict and by a CountMap, and the count of one bucket of
  one source (zero when the source or the bucket is absent).
\<close>

definition bucket_total :: "buckets \<Rightarrow> int" where
  "bucket_total bs = sum_list (map snd bs)"

definition total_packets :: "countmap \<Rightarrow> int" where
  "total_packets data = sum_list (map (\<lambda>(ip, bs). bucket_total bs) data)"

definition packet_count :: "countmap \<Rightarrow> ipaddress \<Rightarrow> int \<Rightarrow> int" where
  "packet_count data ip time = dict_get (dict_get data ip []) time 0"

section \<open>Bucket alignment\<close>

text \<open>Every bucket key is a multiple of the aggregation time.\<close>

definition keys_aligned :: "int \<Rightarrow> buckets \<Rightarrow> bool" where
  "keys_aligned aggregation bs = list_all (\<lambda>(time, count). time mod aggregation = 0) bs"

definition buckets_aligned :: "int \<Rightarrow> countmap \<Rightarrow> bool" where
  "buckets_aligned aggregation data = list_all (\<lambda>(ip, bs). keys_aligned aggregation bs) data"

section \<open>Example records\<close>

text \<open>
  A flow of \<open>n\<close> packets from 192.0.2.7 to port 53 of 203.0.113.1, first seen at
  2024-01-01T00:59:59Z and last seen at 2024-01-01T01:00:01Z: with the default
  aggregation time of one hour it spans two buckets.
\<close>

definition spanning_flow :: "int \<Rightarrow> nfflow" where
  "spanning_flow n =
     \<lparr> in_packets = n, dst_port = 53,
       first_dt = \<lparr> clock_us = 1704070799000000, tzinfo = Some 0 \<rparr>,
       last_dt = \<lparr> clock_us = 1704070801000000, tzinfo = Some 0 \<rparr>,
       src_addr = IPv4Address 0xC0000207, dst_addr = IPv4Address 0xCB007101 \<rparr>"

text \<open>
  A flow of three packets between the same hosts, first seen at 1969-12-31T23:59:59Z
  and last seen at 1970-01-01T00:00:01Z.
\<close>

definition epoch_flow :: nfflow where
  "epoch_flow =
     \<lparr> in_packets = 3, dst_port = 53,
       first_dt = \<lparr> clock_us = - 1000000, tzinfo = Some 0 \<rparr>,
       last_dt = \<lparr> clock_us = 1000000, tzinfo = Some 0 \<rparr>,
       src_addr = IPv4Address 0xC0000207, dst_addr = IPv4Address 0xCB007101 \<rparr>"

section \<open>optional\_datetime\<close>

text \<open>
  \<open>datetime.fromisoformat\<close> belongs to the standard library; it is a parameter of
  the model: a function from the string to the \<open>datetime\<close> it reads, or to the
  \<open>ValueError\<close> it raises. \<open>timezone.utc\<close> is the offset zero, and
  \<open>dt.replace(tzinfo=tz)\<close> keeps the clock fields and exchanges the \<open>tzinfo\<close>.
\<close>

type_synonym isoparser = "string \<Rightarrow> py_error + datetime"

definition utc :: int where
  "utc = 0"

definition replace_tzinfo :: "datetime \<Rightarrow> int \<Rightarrow> datetime" where
  "replace_tzinfo dt tz = dt\<lparr>tzinfo := Some tz\<rparr>"

definition optional_datetime :: "isoparser \<Rightarrow> string option \<Rightarrow> py_error + datetime option" where
  "optional_datetime fromisoformat dt =
     (case dt of
        None \<Rightarrow> Inr None
      | Some s \<Rightarrow>
          (case fromisoformat s of
             Inl e \<Rightarrow> Inl e
           | Inr parsed \<Rightarrow> Inr (Some (replace_tzinfo parsed utc))))"

text \<open>
  \<open>NfFlow.from_dict\<close> reads each of its two timestamps from one of two keys of
  the decoded object: \<open>first\<close> or else \<open>t_first\<close>, and \<open>last\<close> or else
  \<open>t_last\<close>. \<open>get\<close> is \<open>d.get(key, None)\<close> on the string values of the
  object.
  \<^verbatim>\<open>
  first = optional_datetime(d.get("first", None))
  if first is None:
      first = optional_datetime(d.get("t_first", None))
  if first is None:
      raise ValueError("A NetFlow must have a first timestamp.")
  \<close>
\<close>

definition from_dict_timestamp ::
  "isoparser \<Rightarrow> (string \<Rightarrow> string option) \<Rightarrow> string \<Rightarrow> string \<Rightarrow> py_error + datetime" where
  "from_dict_timestamp fromisoformat get key prefixed_key =
     (case optional_datetime fromisoformat (get key) of
        Inl e \<Rightarrow> Inl e
      | Inr (Some dt) \<Rightarrow> Inr dt
      | Inr None \<Rightarrow>
          (case optional_datetime fromisoformat (get prefixed_key) of
             Inl e \<Rightarrow> Inl e
           | Inr (Some dt) \<Rightarrow> Inr dt
           | Inr None \<Rightarrow> Inl ValueError))"

section \<open>Text of integers and addresses\<close>

text \<open>\<open>str\<close> of an \<open>int\<close>: decimal digits, with a minus sign when negative.\<close>

fun str_nat :: "nat \<Rightarrow> string" where
  "str_nat n =
     (if n < 10 then [char_of (48 + n)]
      else str_nat (n div 10) @ [char_of (48 + n mod 10)])"

declare str_nat.simps [simp del]

definition str_int :: "int \<Rightarrow> string" where
  "str_int i = (if i < 0 then CHR ''-'' # str_nat (nat (- i)) else str_nat (nat i))"

text \<open>
  \<open>str\<close> of an \<open>IPv4Address\<close> is the dotted quad. \<open>str\<close> of an
  \<open>IPv6Address\<close> is the compressed form that the ipaddress library computes; it is
  a parameter of the model.
\<close>

definition str_ipv4 :: "32 word \<Rightarrow> string" where
  "str_ipv4 a =
     str_nat (unat (drop_bit 24 a)) @ ''.'' @
     str_nat (unat (drop_bit 16 a AND 255)) @ ''.'' @
     str_nat (unat (drop_bit 8 a AND 255)) @ ''.'' @
     str_nat (unat (a AND 255))"

definition str_ip :: "(128 word \<Rightarrow> string) \<Rightarrow> ipaddress \<Rightarrow> string" where
  "str_ip str_ipv6 ip = (case ip of IPv4Address a \<Rightarrow> str_ipv4 a | IPv6Address a \<Rightarrow> str_ipv6 a)"

section \<open>write\_allowlist\_as\_csv\<close>

text \<open>
  \<open>csv.DictWriter(out, ["ip", "packets"])\<close> writes with the default dialect
  \<open>excel\<close>: delimiter \<open>,\<close>, quote character \<open>"\<close>, minimal quoting, line
  terminator \<open>\r\n\<close>. A field is quoted when it holds the delimiter, the quote
  character or a character of the line terminator, and quote characters inside it are
  doubled; a record that consists of one empty field is written as \<open>""\<close>.
\<close>

definition CR :: char where
  "CR = CHR 0x0D"

definition LF :: char where
  "LF = CHR 0x0A"

definition csv_special :: "char \<Rightarrow> bool" where
  "csv_special c = (c = CHR '','' \<or> c = CHR 0x22 \<or> c = CR \<or> c = LF)"

definition csv_field :: "string \<Rightarrow> string" where
  "csv_field s =
     (if list_ex csv_special s
      then [CHR 0x22] @ concat (map (\<lambda>c. if c = CHR 0x22 then [c, c] else [c]) s) @ [CHR 0x22]
      else s)"

fun join_fields :: "string list \<Rightarrow> string" where
  "join_fields [] = []"
| "join_fields [f] = f"
| "join_fields (f # g # rest) = f @ '','' @ join_fields (g # rest)"

definition csv_writerow :: "string list \<Rightarrow> string" where
  "csv_writerow row =
     (if row = [[]] then [CHR 0x22, CHR 0x22] else join_fields (map csv_field row))
       @ [CR, LF]"

text \<open>
  \<open>writeheader()\<close> writes the field names as a row; \<open>writerows\<close> writes, for
  every item of the allowlist in the order of the dict, the row of \<open>str(ip)\<close> and
  \<open>str(packets)\<close>. The result is the text handed to \<open>out\<close>.
\<close>

definition write_allowlist_as_csv :: "(128 word \<Rightarrow> string) \<Rightarrow> allowlist \<Rightarrow> string" where
  "write_allowlist_as_csv str_ipv6 allowlist =
     csv_writerow [''ip'', ''packets'']
       @ concat (map (\<lambda>(ip, packets). csv_writerow [str_ip str_ipv6 ip, str_int packets])
                  allowlist)"

section \<open>main\<close>

text \<open>
  What the run takes from outside the program:
  \<^item> \<open>datetime.fromisoformat\<close> and \<open>str\<close> of an \<open>IPv6Address\<close>, as above;
  \<^item> for the path of a configuration file: \<open>None\<close> when
    \<open>argparse.FileType\<close> cannot open it, otherwise what \<open>json.load\<close> and
    \<open>Configuration.from_dict\<close> make of it;
  \<^item> for an input file: what \<open>nfdump_json\<close> yields for it;
  \<^item> for an output path: whether \<open>open("wt")\<close> succeeds.
\<close>

record environment =
  env_fromisoformat :: isoparser
  env_str_ipv6 :: "128 word \<Rightarrow> string"
  env_read_config :: "string \<Rightarrow> (py_error + configuration) option"
  env_nfdump_json :: "string \<Rightarrow> decoded"
  env_writable :: "string \<Rightarrow> bool"

text \<open>
  The command line, as \<open>argparse\<close> assigns it to the destinations: the argument of
  \<open>-c\<close>, of \<open>-n\<close> and of \<open>-o\<close> when given, and the positional \<open>FILES\<close>.
  \<open>parse_args\<close> ends the run with status 2 when a file of type \<open>FileType\<close>
  cannot be opened and when \<open>FILES\<close>, declared with \<open>nargs="+"\<close>, received no
  argument.
\<close>

record arguments =
  arg_config :: "string option"
  arg_now :: "string option"
  arg_output :: "string option"
  arg_files :: "string list"

definition parse_args :: "environment \<Rightarrow> arguments \<Rightarrow> py_error + arguments" where
  "parse_args env args =
     (if (case arg_config args of None \<Rightarrow> False | Some path \<Rightarrow> env_read_config env path = None)
      then Inl (SystemExit 2)
      else if arg_files args = [] then Inl (SystemExit 2)
      else Inr args)"

text \<open>
  What a run leaves behind: the text printed on standard output, and the path of the
  file written with the text handed to it.
\<close>

record outcome =
  stdout :: string
  written :: "(string \<times> string) option"

text \<open>\<open>Path(p).name\<close>: the last component of the path, \<open>.\<close> components dropped.\<close>

fun split_on :: "char \<Rightarrow> string \<Rightarrow> string list" where
  "split_on c [] = [[]]"
| "split_on c (x # xs) =
     (if x = c then [] # split_on c xs
      else (case split_on c xs of [] \<Rightarrow> [[x]] | w # ws \<Rightarrow> (x # w) # ws))"

definition path_name :: "string \<Rightarrow> string" where
  "path_name p =
     (case rev (filter (\<lambda>part. part \<noteq> [] \<and> part \<noteq> ''.'') (split_on CHR ''/'' p)) of
        [] \<Rightarrow> []
      | part # _ \<Rightarrow> part)"

text \<open>
  \<open>results.get()\<close>: the results of all files in the order of \<open>args.files\<close>, or
  the exception of a file that failed (of the first one in that order here; when
  several fail, the pool reports the one that failed first in time).
\<close>

fun pool_results :: "(py_error + countmap) list \<Rightarrow> py_error + countmap list" where
  "pool_results [] = Inr []"
| "pool_results (r # rest) =
     (case r of
        Inl e \<Rightarrow> Inl e
      | Inr data \<Rightarrow> (case pool_results rest of Inl e \<Rightarrow> Inl e | Inr ds \<Rightarrow> Inr (data # ds)))"

definition load_configuration :: "environment \<Rightarrow> arguments \<Rightarrow> py_error + configuration" where
  "load_configuration env args =
     (case arg_config args of
        None \<Rightarrow> Inr default_configuration
      | Some path \<Rightarrow>
          (case env_read_config env path of None \<Rightarrow> Inl OSError | Some loaded \<Rightarrow> loaded))"

text \<open>\<open>optional_datetime(args.now).timestamp()\<close>: \<open>None\<close> has no \<open>timestamp\<close>.\<close>

definition reference_time :: "environment \<Rightarrow> arguments \<Rightarrow> py_error + real" where
  "reference_time env args =
     (case optional_datetime (env_fromisoformat env) (arg_now args) of
        Inl e \<Rightarrow> Inl e
      | Inr None \<Rightarrow> Inl AttributeError
      | Inr (Some dt) \<Rightarrow> Inr (timestamp dt))"

definition emit :: "environment \<Rightarrow> arguments \<Rightarrow> allowlist \<Rightarrow> py_error + outcome" where
  "emit env args allowlist =
     (case arg_output args of
        None \<Rightarrow>
          Inr \<lparr> stdout = ''The allowlist contains '' @ str_nat (length allowlist)
                         @ '' entries.'' @ [LF],
                written = None \<rparr>
      | Some path \<Rightarrow>
          if path_name path = ''-''
          then Inr \<lparr> stdout = write_allowlist_as_csv (env_str_ipv6 env) allowlist, written = None \<rparr>
          else if env_writable env path
          then Inr \<lparr> stdout = [],
                     written = Some (path, write_allowlist_as_csv (env_str_ipv6 env) allowlist) \<rparr>
          else Inl OSError)"

definition main :: "environment \<Rightarrow> arguments \<Rightarrow> py_error + outcome" where
  "main env argv =
     (case parse_args env argv of
        Inl e \<Rightarrow> Inl e
      | Inr args \<Rightarrow>
     (case load_configuration env args of
        Inl e \<Rightarrow> Inl e
      | Inr config \<Rightarrow>
     (case pool_results
             (map (\<lambda>file. process_netflow_file (env_nfdump_json env file) config) (arg_files args)) of
        Inl e \<Rightarrow> Inl e
      | Inr results \<Rightarrow>
     (case reference_time env args of
        Inl e \<Rightarrow> Inl e
      | Inr now_ts \<Rightarrow>
     (case build_allowlist (foldl merge_data [] results) config now_ts of
        Inl e \<Rightarrow> Inl e
      | Inr allowlist \<Rightarrow> emit env args allowlist)))))"

text \<open>
  The exit status of the process: 0 when \<open>main\<close> returns, the status of a
  \<open>SystemExit\<close>, and 1 for any other exception that ends the run.
\<close>

definition exit_status :: "py_error + outcome \<Rightarrow> int" where
  "exit_status r = (case r of Inr _ \<Rightarrow> 0 | Inl (SystemExit status) \<Rightarrow> status | Inl _ \<Rightarrow> 1)"

section \<open>The claim about line endings, in its own words\<close>

text \<open>
  A text uses LF line endings without trailing whitespace when none of its lines, as
  separated by LF, ends with a space, a tab or a carriage return.
\<close>

definition trailing_whitespace :: "string \<Rightarrow> bool" where
  "trailing_whitespace line =
     (case rev line of [] \<Rightarrow> False | c # _ \<Rightarrow> c = CHR '' '' \<or> c = CHR 0x09 \<or> c = CR)"

definition lf_lines_clean :: "string \<Rightarrow> bool" where
  "lf_lines_clean text = (\<not> list_ex trailing_whitespace (split_on LF text))"

section \<open>A reader of ISO 8601 strings and a writer of IPv6 addresses\<close>

text \<open>
  For the examples, the two library functions are instantiated. The reader knows the
  strings \<open>YYYY-MM-DDTHH:MM:SS\<close>, with or without an offset \<open>+HH:MM\<close> or
  \<open>-HH:MM\<close>, and reads them as \<open>datetime.fromisoformat\<close> does; it answers
  \<open>ValueError\<close> to every other string, also to those of other forms that the
  library reads. The writer gives the exploded form of an address, eight groups of four
  hexadecimal digits; \<open>str\<close> gives the compressed form, of the same characters.
\<close>

definition digit_value :: "char \<Rightarrow> nat option" where
  "digit_value c =
     (if (48::nat) \<le> of_char c \<and> (of_char c :: nat) \<le> 57 then Some (of_char c - 48) else None)"

fun digits_value :: "nat \<Rightarrow> string \<Rightarrow> nat option" where
  "digits_value acc [] = Some acc"
| "digits_value acc (c # cs) =
     (case digit_value c of None \<Rightarrow> None | Some v \<Rightarrow> digits_value (10 * acc + v) cs)"

definition field_value :: "nat \<Rightarrow> nat \<Rightarrow> string \<Rightarrow> nat option" where
  "field_value start len s =
     (if start + len \<le> length s then digits_value 0 (take len (drop start s)) else None)"

definition is_leap :: "nat \<Rightarrow> bool" where
  "is_leap year = (year mod 4 = 0 \<and> (year mod 100 \<noteq> 0 \<or> year mod 400 = 0))"

definition days_in_month :: "nat \<Rightarrow> nat \<Rightarrow> nat" where
  "days_in_month year month =
     (if month = 2 then (if is_leap year then 29 else 28)
      else if month = 4 \<or> month = 6 \<or> month = 9 \<or> month = 11 then 30 else 31)"

definition days_before_year :: "nat \<Rightarrow> nat" where
  "days_before_year year =
     (year - 1) * 365 + (year - 1) div 4 - (year - 1) div 100 + (year - 1) div 400"

definition days_before_month :: "nat \<Rightarrow> nat \<Rightarrow> nat" where
  "days_before_month year month = sum_list (map (days_in_month year) [1 ..< month])"

text \<open>The proleptic Gregorian ordinal of a date; 1970-01-01 has the ordinal 719163.\<close>

definition ymd2ord :: "nat \<Rightarrow> nat \<Rightarrow> nat \<Rightarrow> nat" where
  "ymd2ord year month day = days_before_year year + days_before_month year month + day"

definition clock_reading :: "nat \<Rightarrow> nat \<Rightarrow> nat \<Rightarrow> nat \<Rightarrow> nat \<Rightarrow> nat \<Rightarrow> int" where
  "clock_reading year month day hour minute second =
     ((int (ymd2ord year month day) - 719163) * 86400
        + int hour * 3600 + int minute * 60 + int second) * 1000000"

definition read_offset :: "string \<Rightarrow> int option option" where
  "read_offset s =
     (if s = [] then Some None
      else if length s = 6 \<and> (s ! 0 = CHR ''+'' \<or> s ! 0 = CHR ''-'') \<and> s ! 3 = CHR '':''
      then (case (field_value 1 2 s, field_value 4 2 s) of
              (Some h, Some m) \<Rightarrow>
                if h < 24 \<and> m < 60
                then Some (Some ((if s ! 0 = CHR ''-'' then - 1 else 1)
                                   * (int h * 3600 + int m * 60) * 1000000))
                else None
            | _ \<Rightarrow> None)
      else None)"

definition fromisoformat_seconds :: isoparser where
  "fromisoformat_seconds s =
     (if 19 \<le> length s \<and> s ! 4 = CHR ''-'' \<and> s ! 7 = CHR ''-'' \<and> s ! 10 = CHR ''T''
           \<and> s ! 13 = CHR '':'' \<and> s ! 16 = CHR '':''
      then (case (field_value 0 4 s, field_value 5 2 s, field_value 8 2 s,
                  field_value 11 2 s, field_value 14 2 s, field_value 17 2 s,
                  read_offset (drop 19 s)) of
              (Some year, Some month, Some day, Some hour, Some minute, Some second,
               Some offset) \<Rightarrow>
                if 1 \<le> year \<and> 1 \<le> month \<and> month \<le> 12 \<and> 1 \<le> day
                     \<and> day \<le> days_in_month year month
                     \<and> hour < 24 \<and> minute < 60 \<and> second < 60
                then Inr \<lparr> clock_us = clock_reading year month day hour minute second,
                           tzinfo = offset \<rparr>
                else Inl ValueError
            | _ \<Rightarrow> Inl ValueError)
      else Inl ValueError)"

definition hex_digit :: "nat \<Rightarrow> char" where
  "hex_digit n = (if n < 10 then char_of (48 + n) else char_of (87 + n))"

definition hextet :: "128 word \<Rightarrow> nat \<Rightarrow> string" where
  "hextet a i =
     (let h = unat (drop_bit (112 - 16 * i) a AND 0xFFFF)
      in [hex_digit (h div 4096), hex_digit (h div 256 mod 16),
          hex_digit (h div 16 mod 16), hex_digit (h mod 16)])"

definition ipv6_exploded :: "128 word \<Rightarrow> string" where
  "ipv6_exploded a =
     hextet a 0 @ '':'' @ hextet a 1 @ '':'' @ hextet a 2 @ '':'' @ hextet a 3 @ '':'' @
     hextet a 4 @ '':'' @ hextet a 5 @ '':'' @ hextet a 6 @ '':'' @ hextet a 7"

text \<open>
  An environment for the examples: no configuration file can be opened, every output
  path can be written, and the decoder yields three records for the file
  \<open>nfcapd.1\<close> (200, 150 and 130 packets from 192.0.2.7 to port 53 of 203.0.113.1,
  in the hours from 00:00, 01:00 and 02:00 of 2024-01-01) and none for any other file.
\<close>

definition hourly_flow :: "int \<Rightarrow> int \<Rightarrow> nfflow" where
  "hourly_flow hour n =
     \<lparr> in_packets = n, dst_port = 53,
       first_dt = \<lparr> clock_us = (1704067200 + 3600 * hour + 60) * 1000000, tzinfo = Some 0 \<rparr>,
       last_dt = \<lparr> clock_us = (1704067200 + 3600 * hour + 120) * 1000000, tzinfo = Some 0 \<rparr>,
       src_addr = IPv4Address 0xC0000207, dst_addr = IPv4Address 0xCB007101 \<rparr>"

definition example_environment :: environment where
  "example_environment =
     \<lparr> env_fromisoformat = fromisoformat_seconds,
       env_str_ipv6 = ipv6_exploded,
       env_read_config = (\<lambda>path. None),
       env_nfdump_json =
         (\<lambda>file. if file = ''nfcapd.1''
                  then ([hourly_flow 0 200, hourly_flow 1 150, hourly_flow 2 130], None)
                  else ([], None)),
       env_writable = (\<lambda>path. True) \<rparr>"

section \<open>Properties of binary64 rounding\<close>

text \<open>
  Rounding is monotone, and every integer of magnitude at most \<open>2^53\<close> is a float.
  The integer \<open>2^53 + 1\<close> is not: it lies halfway between two floats and rounds
  to the even one, \<open>2^53\<close>.
\<close>

lemma round_half_even_of_int [simp]: "round_half_even (of_int k) = k"
  by (simp add: round_half_even_def)

lemma round_half_even_bounds: "\<lfloor>y\<rfloor> \<le> round_half_even y" "round_half_even y \<le> \<lfloor>y\<rfloor> + 1"
  by (simp_all add: round_half_even_def Let_def)

lemma round_half_even_mono:
  assumes "x \<le> y"
  shows "round_half_even x \<le> round_half_even y"
proof (cases "\<lfloor>x\<rfloor> = \<lfloor>y\<rfloor>")
  case True
  with assms show ?thesis
    by (auto simp: round_half_even_def Let_def)
next
  case False
  with assms have "\<lfloor>x\<rfloor> < \<lfloor>y\<rfloor>"
    using floor_mono [OF assms] by linarith
  with round_half_even_bounds(2) [of x] round_half_even_bounds(1) [of y]
  show ?thesis by linarith
qed

lemma round_half_even_minus: "round_half_even (- y) = - round_half_even y"
proof (cases "y \<in> \<int>")
  case True
  then obtain k where "y = of_int k" by (auto elim: Ints_cases)
  then have "- y = of_int (- k)" by simp
  then show ?thesis using \<open>y = of_int k\<close> by (simp only: round_half_even_of_int)
next
  case False
  then have "y \<noteq> of_int \<lfloor>y\<rfloor>" by (metis Ints_of_int)
  then have fl: "\<lfloor>- y\<rfloor> = - \<lfloor>y\<rfloor> - 1"
    by (simp add: floor_minus ceiling_altdef)
  show ?thesis
    unfolding round_half_even_def Let_def fl
    by (auto simp: algebra_simps)
qed

lemma two_powr_nat: "0 \<le> k \<Longrightarrow> (2::real) powr of_int k = 2 ^ nat k"
  by (simp add: powr_real_of_int)

lemma two_powr_neg: "0 \<le> k \<Longrightarrow> (2::real) powr (- of_int k) = 1 / 2 ^ nat k"
  by (simp add: powr_minus two_powr_nat inverse_eq_divide)

lemma binade_bounds:
  assumes "x \<noteq> 0"
  shows "2 powr of_int (binade x) \<le> \<bar>x\<bar>" and "\<bar>x\<bar> < 2 powr (of_int (binade x) + 1)"
proof -
  have "2 powr of_int (binade x) \<le> \<bar>x\<bar> \<and> \<bar>x\<bar> < 2 powr (of_int (binade x) + 1)"
  proof (cases "1 \<le> \<bar>x\<bar>")
    case True
    define n where "n = \<lfloor>\<bar>x\<bar>\<rfloor>"
    from True have npos: "0 < n" by (simp add: n_def)
    then have b1: "1 \<le> bitlen n" by (simp add: bitlen_alt_def)
    from bitlen_bounds [OF npos]
    have lo: "2 ^ nat (bitlen n - 1) \<le> n" and hi: "n < 2 ^ nat (bitlen n)" by simp_all
    have e: "binade x = bitlen n - 1" using True by (simp add: binade_def n_def)
    have "(2::real) powr of_int (bitlen n - 1) = of_int (2 ^ nat (bitlen n - 1))"
      using b1 two_powr_nat [of "bitlen n - 1"] by simp
    also have "\<dots> \<le> of_int n" using lo by (simp only: of_int_le_iff)
    also have "\<dots> \<le> \<bar>x\<bar>" by (simp add: n_def)
    finally have 1: "2 powr of_int (bitlen n - 1) \<le> \<bar>x\<bar>" .
    have "n + 1 \<le> 2 ^ nat (bitlen n)" using hi by simp
    then have "(of_int (n + 1) :: real) \<le> of_int (2 ^ nat (bitlen n))"
      by (simp only: of_int_le_iff)
    moreover have "\<bar>x\<bar> < of_int (n + 1)" by (simp add: n_def)
    moreover have "(2::real) powr (of_int (bitlen n - 1) + 1) = of_int (2 ^ nat (bitlen n))"
      using b1 two_powr_nat [of "bitlen n"] by simp
    ultimately have 2: "\<bar>x\<bar> < 2 powr (of_int (bitlen n - 1) + 1)" by linarith
    from 1 2 show ?thesis by (simp only: e)
  next
    case False
    define y where "y = 1 / \<bar>x\<bar>"
    define m where "m = \<lceil>y\<rceil>"
    from False assms have y1: "1 < y" by (simp add: y_def)
    then have mpos: "0 < m - 1" by (simp add: m_def)
    have xy: "\<bar>x\<bar> = 1 / y" by (simp add: y_def)
    have e: "binade x = - bitlen (m - 1)" using False by (simp add: binade_def m_def y_def)
    from mpos have b1: "1 \<le> bitlen (m - 1)" by (simp add: bitlen_alt_def)
    from bitlen_bounds [OF mpos]
    have lo: "2 ^ nat (bitlen (m - 1) - 1) \<le> m - 1" and hi: "m - 1 < 2 ^ nat (bitlen (m - 1))"
      by simp_all
    have m_le: "m \<le> 2 ^ nat (bitlen (m - 1))" using hi by simp
    have "y \<le> of_int m" by (simp add: m_def)
    also have "\<dots> \<le> of_int (2 ^ nat (bitlen (m - 1)))"
      using m_le by (simp only: of_int_le_iff)
    also have "\<dots> = 2 ^ nat (bitlen (m - 1))" by simp
    finally have yle: "y \<le> 2 ^ nat (bitlen (m - 1))" .
    have "(2::real) ^ nat (bitlen (m - 1) - 1) = of_int (2 ^ nat (bitlen (m - 1) - 1))" by simp
    also have "\<dots> \<le> of_int (m - 1)"
      using lo by (simp only: of_int_le_iff)
    also have "\<dots> < y" by (simp add: m_def) linarith
    finally have ygt: "2 ^ nat (bitlen (m - 1) - 1) < y" .
    have p1: "(2::real) powr of_int (- bitlen (m - 1)) = 1 / 2 ^ nat (bitlen (m - 1))"
      using b1 two_powr_neg [of "bitlen (m - 1)"] by simp
    have p2: "(2::real) powr (of_int (- bitlen (m - 1)) + 1) = 1 / 2 ^ nat (bitlen (m - 1) - 1)"
      using b1 two_powr_neg [of "bitlen (m - 1) - 1"] by (simp add: algebra_simps)
    have 1: "2 powr of_int (- bitlen (m - 1)) \<le> \<bar>x\<bar>"
      unfolding p1 xy using yle y1 by (simp add: field_simps)
    have 2: "\<bar>x\<bar> < 2 powr (of_int (- bitlen (m - 1)) + 1)"
      unfolding p2 xy using ygt y1 by (simp add: field_simps)
    from 1 2 show ?thesis by (simp only: e)
  qed
  then show "2 powr of_int (binade x) \<le> \<bar>x\<bar>" and "\<bar>x\<bar> < 2 powr (of_int (binade x) + 1)"
    by simp_all
qed

lemma binade_floor_log: "x \<noteq> 0 \<Longrightarrow> binade x = \<lfloor>log 2 \<bar>x\<bar>\<rfloor>"
  using binade_bounds [of x] floor_log_eq_powr_iff [of "\<bar>x\<bar>" 2 "binade x"] by simp

lemma ulp_powr: "ulp x = 2 powr of_int (binade x - 52)"
  using powr_real_of_int' [of 2 "binade x - 52"] by (simp add: ulp_def)

lemma binade_eqI:
  assumes "2 powr of_int k \<le> \<bar>x\<bar>" and "\<bar>x\<bar> < 2 powr (of_int k + 1)"
  shows "binade x = k"
proof -
  have "0 < \<bar>x\<bar>" using assms(1) powr_gt_zero [of 2 "of_int k"] by linarith
  then show ?thesis
    using assms floor_log_eq_powr_iff [of "\<bar>x\<bar>" 2 k] by (simp add: binade_floor_log)
qed

lemma ulp_pos: "0 < ulp x"
  by (simp add: ulp_def)

lemma binade_minus [simp]: "binade (- x) = binade x"
  by (simp add: binade_def)

lemma ulp_minus [simp]: "ulp (- x) = ulp x"
  by (simp add: ulp_def)

lemma round_binary64_minus: "round_binary64 (- x) = - round_binary64 x"
  by (simp add: round_binary64_def round_half_even_minus)

lemma scaled_bounds:
  assumes "0 < x"
  shows "2 ^ 52 \<le> x / ulp x" and "x / ulp x < 2 ^ 53"
proof -
  from assms have nz: "x \<noteq> 0" by simp
  have u: "ulp x = 2 powr of_int (binade x) / 2 ^ 52"
    by (simp add: ulp_powr powr_diff)
  have p: "0 < (2::real) powr of_int (binade x)" by simp
  from binade_bounds(1) [OF nz] assms have lo: "2 powr of_int (binade x) \<le> x" by simp
  from binade_bounds(2) [OF nz] assms have hi: "x < 2 * 2 powr of_int (binade x)"
    by (simp add: powr_add)
  define q where "q = x / 2 powr of_int (binade x)"
  have "x / ulp x = 2 ^ 52 * q" by (simp add: u q_def)
  moreover have "1 \<le> q" using lo p by (simp add: field_simps q_def)
  moreover have "q < 2" using hi p by (simp add: field_simps q_def)
  ultimately show "2 ^ 52 \<le> x / ulp x" and "x / ulp x < 2 ^ 53" by simp_all
qed

lemma round_binary64_pos_bounds:
  assumes "0 < x"
  shows "2 powr of_int (binade x) \<le> round_binary64 x"
    and "round_binary64 x \<le> 2 powr (of_int (binade x) + 1)"
proof -
  let ?r = "round_half_even (x / ulp x)"
  have "round_half_even (of_int (2 ^ 52)) \<le> ?r"
    using scaled_bounds(1) [OF assms] by (intro round_half_even_mono) simp
  then have lo: "2 ^ 52 \<le> ?r" by (simp only: round_half_even_of_int)
  have "?r \<le> round_half_even (of_int (2 ^ 53))"
    using scaled_bounds(2) [OF assms] by (intro round_half_even_mono) simp
  then have hi: "?r \<le> 2 ^ 53" by (simp only: round_half_even_of_int)
  have u: "ulp x = 2 powr of_int (binade x) / 2 ^ 52"
    by (simp add: ulp_powr powr_diff)
  have r: "round_binary64 x = 2 powr of_int (binade x) * (of_int ?r / 2 ^ 52)"
    using assms by (simp add: round_binary64_def u)
  have "(2::real) ^ 52 \<le> of_int ?r" using lo by (metis of_int_le_iff of_int_numeral of_int_power)
  then have a: "1 \<le> (of_int ?r :: real) / 2 ^ 52" by simp
  have "(of_int ?r :: real) \<le> 2 ^ 53" using hi by (metis of_int_le_iff of_int_numeral of_int_power)
  then have b: "(of_int ?r :: real) / 2 ^ 52 \<le> 2" by simp
  have p: "0 < (2::real) powr of_int (binade x)" by simp
  show "2 powr of_int (binade x) \<le> round_binary64 x"
    unfolding r using a p by (metis mult.right_neutral mult_le_cancel_left_pos)
  show "round_binary64 x \<le> 2 powr (of_int (binade x) + 1)"
    unfolding r powr_add using b p by simp
qed

lemma round_binary64_mono_pos:
  assumes "0 < x" and "x \<le> y"
  shows "round_binary64 x \<le> round_binary64 y"
proof -
  from assms have ypos: "0 < y" by simp
  have "log 2 \<bar>x\<bar> \<le> log 2 \<bar>y\<bar>" using assms by simp
  then have le: "binade x \<le> binade y" using assms by (simp add: binade_floor_log floor_mono)
  show ?thesis
  proof (cases "binade x = binade y")
    case True
    then have u: "ulp y = ulp x" by (simp add: ulp_def)
    have "x / ulp x \<le> y / ulp x" using assms(2) ulp_pos [of x] by (simp add: divide_right_mono)
    then have "round_half_even (x / ulp x) \<le> round_half_even (y / ulp x)"
      by (rule round_half_even_mono)
    then show ?thesis
      using assms ypos ulp_pos [of x] by (simp add: round_binary64_def u)
  next
    case False
    with le have "binade x + 1 \<le> binade y" by simp
    then have "(2::real) powr (of_int (binade x) + 1) \<le> 2 powr of_int (binade y)"
      by (metis of_int_1 of_int_add of_int_le_iff one_le_numeral powr_mono)
    with round_binary64_pos_bounds(2) [OF assms(1)] round_binary64_pos_bounds(1) [OF ypos]
    show ?thesis by linarith
  qed
qed

lemma round_binary64_nonneg:
  assumes "0 \<le> x"
  shows "0 \<le> round_binary64 x"
proof (cases "x = 0")
  case True
  then show ?thesis by (simp add: round_binary64_def)
next
  case False
  with assms have "0 < x" by simp
  from round_binary64_pos_bounds(1) [OF this]
  have "2 powr of_int (binade x) \<le> round_binary64 x" .
  moreover have "0 < (2::real) powr of_int (binade x)" by simp
  ultimately show ?thesis by linarith
qed

lemma mono_round_binary64: "mono round_binary64"
proof (rule monoI)
  fix x y :: real
  assume xy: "x \<le> y"
  consider "0 < x" | "x \<le> 0" "0 \<le> y" | "y < 0" by linarith
  then show "round_binary64 x \<le> round_binary64 y"
  proof cases
    case 1
    then show ?thesis using xy by (rule round_binary64_mono_pos)
  next
    case 2
    have "round_binary64 x = - round_binary64 (- x)" by (simp add: round_binary64_minus)
    moreover have "0 \<le> round_binary64 (- x)" using 2(1) by (intro round_binary64_nonneg) simp
    moreover have "0 \<le> round_binary64 y" using 2(2) by (rule round_binary64_nonneg)
    ultimately show ?thesis by linarith
  next
    case 3
    then have "round_binary64 (- y) \<le> round_binary64 (- x)"
      using xy by (intro round_binary64_mono_pos) simp_all
    then show ?thesis by (simp add: round_binary64_minus)
  qed
qed

lemma round_binary64_exact:
  assumes "x / ulp x \<in> \<int>"
  shows "round_binary64 x = x"
proof -
  from assms obtain m where m: "x / ulp x = of_int m" by (auto elim: Ints_cases)
  then have "ulp x * of_int (round_half_even (x / ulp x)) = ulp x * (x / ulp x)"
    by (simp only: round_half_even_of_int)
  also have "\<dots> = x" using ulp_pos [of x] by simp
  finally show ?thesis by (simp add: round_binary64_def)
qed

lemma ulp_small:
  assumes "binade x \<le> 52"
  shows "ulp x = 1 / 2 ^ nat (52 - binade x)"
proof -
  have "of_int (binade x - 52) = - real (nat (52 - binade x))" using assms by simp
  then have "ulp x = 2 powr (- real (nat (52 - binade x)))" by (simp only: ulp_powr)
  also have "\<dots> = 1 / 2 ^ nat (52 - binade x)"
    by (simp add: powr_minus powr_realpow inverse_eq_divide)
  finally show ?thesis .
qed

lemma round_binary64_of_int:
  assumes "\<bar>k\<bar> \<le> 2 ^ 53"
  shows "round_binary64 (of_int k) = of_int k"
proof (cases "k = 0")
  case True
  then show ?thesis by (simp add: round_binary64_def)
next
  case False
  let ?x = "of_int k :: real"
  from False have nz: "?x \<noteq> 0" by simp
  have le: "\<bar>?x\<bar> \<le> 2 ^ 53"
    using assms by (metis of_int_abs of_int_le_iff of_int_numeral of_int_power)
  have "binade ?x \<le> 53"
  proof (rule ccontr)
    assume "\<not> binade ?x \<le> 53"
    then have "54 \<le> binade ?x" by simp
    then have "(2::real) powr 54 \<le> 2 powr of_int (binade ?x)"
      by (intro powr_mono) simp_all
    with binade_bounds(1) [OF nz] le show False by simp
  qed
  then consider "binade ?x \<le> 52" | "binade ?x = 53" by linarith
  then show ?thesis
  proof cases
    case 1
    have "?x / ulp ?x = of_int (k * 2 ^ nat (52 - binade ?x))"
      by (simp add: ulp_small [OF 1])
    then have "?x / ulp ?x \<in> \<int>" by (simp only: Ints_of_int)
    then show ?thesis by (rule round_binary64_exact)
  next
    case 2
    with binade_bounds(1) [OF nz] have "2 ^ 53 \<le> \<bar>?x\<bar>" by simp
    with le have "\<bar>?x\<bar> = 2 ^ 53" by simp
    moreover have "ulp ?x = 2" using 2 by (simp add: ulp_def)
    ultimately have "\<bar>?x / ulp ?x\<bar> = of_int (2 ^ 52)" by simp
    then have "?x / ulp ?x = of_int (2 ^ 52) \<or> ?x / ulp ?x = of_int (- (2 ^ 52))"
      by (simp only: abs_eq_iff' of_int_minus)
    then have "?x / ulp ?x \<in> \<int>" by (metis Ints_of_int)
    then show ?thesis by (rule round_binary64_exact)
  qed
qed

lemma round_binary64_numeral [simp]:
  "numeral n \<le> (2 ^ 53 :: int) \<Longrightarrow> round_binary64 (numeral n) = numeral n"
  "numeral n \<le> (2 ^ 53 :: int) \<Longrightarrow> round_binary64 (- numeral n) = - numeral n"
  "round_binary64 0 = 0"
  "round_binary64 1 = 1"
  "round_binary64 (- 1) = - 1"
  using round_binary64_of_int [of "numeral n"] round_binary64_of_int [of "- numeral n"]
    round_binary64_of_int [of 0] round_binary64_of_int [of 1] round_binary64_of_int [of "- 1"]
  by simp_all

lemma round_binary64_tie: "round_binary64 9007199254740993 = 9007199254740992"
proof -
  have b: "binade 9007199254740993 = 53"
    by (rule binade_eqI) simp_all
  then have u: "ulp 9007199254740993 = 2" by (simp add: ulp_def)
  have "round_half_even (9007199254740993 / 2) = 4503599627370496"
    by (simp add: round_half_even_def)
  then show ?thesis by (simp add: round_binary64_def u)
qed

section \<open>Properties of merge\_data\<close>

lemma map_of_dict_set: "map_of (dict_set d k v) = (map_of d)(k \<mapsto> v)"
  by (simp add: dict_set_def update_conv')

lemma dict_ok_dict_set: "dict_ok d \<Longrightarrow> dict_ok (dict_set d k v)"
  by (simp add: dict_ok_def dict_set_def distinct_update)

lemma add_counts_commute: "add_counts f g = add_counts g f"
  by (rule ext) (simp add: add_counts_def split: option.splits)

lemma add_countmaps_commute: "add_countmaps F G = add_countmaps G F"
  by (rule ext) (simp add: add_countmaps_def add_counts_commute split: option.splits)

lemma map_of_merge_buckets:
  "dict_ok bs \<Longrightarrow> map_of (merge_buckets acc bs) = add_counts (map_of acc) (map_of bs)"
proof (induction bs arbitrary: acc)
  case Nil
  show ?case by (rule ext) (simp add: add_counts_def split: option.splits)
next
  case (Cons p bs)
  obtain time count where p: "p = (time, count)" by (cases p)
  from Cons.prems p have fresh: "map_of bs time = None" and ok: "dict_ok bs"
    by (auto simp: dict_ok_def map_of_eq_None_iff)
  have "map_of (merge_buckets acc (p # bs))
      = add_counts (map_of (dict_set acc time (dict_get acc time 0 + count))) (map_of bs)"
    using Cons.IH [OF ok] p by simp
  also have "\<dots> = add_counts (map_of acc) (map_of (p # bs))"
    using fresh p
    by (intro ext) (auto simp: add_counts_def map_of_dict_set dict_get_def split: option.splits)
  finally show ?case .
qed

lemma dict_ok_merge_buckets: "dict_ok acc \<Longrightarrow> dict_ok (merge_buckets acc bs)"
  by (induction bs arbitrary: acc) (auto simp: dict_ok_dict_set)

lemma countmap_get_dict_set:
  "countmap_get (dict_set data k bs) = (countmap_get data)(k \<mapsto> map_of bs)"
  by (rule ext) (simp add: countmap_get_def map_of_dict_set)

lemma countmap_get_Cons:
  "countmap_get ((k, bs) # rest) = (countmap_get rest)(k \<mapsto> map_of bs)"
  by (rule ext) (simp add: countmap_get_def)

lemma countmap_get_Nil: "countmap_get [] ip = None"
  by (simp add: countmap_get_def)

lemma countmap_ok_Cons:
  "countmap_ok ((k, bs) # rest) \<longleftrightarrow>
     map_of rest k = None \<and> dict_ok bs \<and> countmap_ok rest"
  by (auto simp: countmap_ok_def dict_ok_def map_of_eq_None_iff)

lemma countmap_get_merge_loop:
  "countmap_ok data_b \<Longrightarrow>
   countmap_get (merge_loop data_a data_b)
     = add_countmaps (countmap_get data_a) (countmap_get data_b)"
proof (induction data_b arbitrary: data_a)
  case Nil
  show ?case
    by (rule ext) (simp add: add_countmaps_def countmap_get_Nil split: option.splits)
next
  case (Cons p rest)
  obtain src_addr data where p: "p = (src_addr, data)" by (cases p)
  from Cons.prems p have fresh: "countmap_get rest src_addr = None"
    and data_ok: "dict_ok data" and rest_ok: "countmap_ok rest"
    by (simp_all add: countmap_ok_Cons countmap_get_def)
  show ?case
  proof (cases "dict_contains data_a src_addr")
    case False
    then have absent: "countmap_get data_a src_addr = None"
      by (simp add: dict_contains_def countmap_get_def)
    have "countmap_get (merge_loop data_a (p # rest))
        = add_countmaps (countmap_get (dict_set data_a src_addr data)) (countmap_get rest)"
      using False p Cons.IH [OF rest_ok] by simp
    also have "\<dots> = add_countmaps (countmap_get data_a) (countmap_get (p # rest))"
      using fresh absent p
      by (intro ext)
         (simp add: add_countmaps_def countmap_get_dict_set countmap_get_Cons
               split: option.splits)
    finally show ?thesis .
  next
    case True
    then obtain cur where cur: "map_of data_a src_addr = Some cur"
      by (auto simp: dict_contains_def)
    then have present: "countmap_get data_a src_addr = Some (map_of cur)"
      and get: "dict_get data_a src_addr [] = cur"
      by (simp_all add: countmap_get_def dict_get_def)
    have "countmap_get (merge_loop data_a (p # rest))
        = add_countmaps (countmap_get (dict_set data_a src_addr (merge_buckets cur data)))
            (countmap_get rest)"
      using True p get Cons.IH [OF rest_ok] by simp
    also have "\<dots> = add_countmaps (countmap_get data_a) (countmap_get (p # rest))"
      using fresh present p map_of_merge_buckets [OF data_ok, of cur]
      by (intro ext)
         (simp add: add_countmaps_def countmap_get_dict_set countmap_get_Cons
               split: option.splits)
    finally show ?thesis .
  qed
qed

lemma countmap_get_merge_data:
  assumes "countmap_ok data_a" and "countmap_ok data_b"
  shows "countmap_get (merge_data data_a data_b)
           = add_countmaps (countmap_get data_a) (countmap_get data_b)"
proof (cases "length data_a > length data_b")
  case True
  then have "countmap_get (merge_data data_a data_b)
      = add_countmaps (countmap_get data_b) (countmap_get data_a)"
    using countmap_get_merge_loop [OF assms(1)] by (simp add: merge_data_def)
  then show ?thesis by (simp add: add_countmaps_commute)
next
  case False
  then show ?thesis
    using countmap_get_merge_loop [OF assms(2)] by (simp add: merge_data_def)
qed

lemma keys_countmap_get: "fst ` set data = {ip. countmap_get data ip \<noteq> None}"
  by (auto simp: countmap_get_def map_of_eq_None_iff)

text \<open>
  C6. For every pair of CountMaps \<open>A\<close> and \<open>B\<close> (Python dicts, so with pairwise
  different keys at both levels), \<open>merge_data(A, B)\<close> and \<open>merge_data(B, A)\<close> denote
  the same CountMap: they have the same set of source keys and, for every source key,
  the same buckets with the same counts. Both are the pointwise sum of \<open>A\<close> and \<open>B\<close>:
  a bucket that both inputs hold gets the sum of the two counts.
\<close>

theorem merge_data_commutative:
  assumes "countmap_ok A" and "countmap_ok B"
  shows "countmap_get (merge_data A B) = countmap_get (merge_data B A)
       \<and> fst ` set (merge_data A B) = fst ` set (merge_data B A)
       \<and> countmap_get (merge_data A B) = add_countmaps (countmap_get A) (countmap_get B)"
proof -
  have ab: "countmap_get (merge_data A B) = add_countmaps (countmap_get A) (countmap_get B)"
    by (rule countmap_get_merge_data [OF assms])
  have ba: "countmap_get (merge_data B A) = add_countmaps (countmap_get B) (countmap_get A)"
    by (rule countmap_get_merge_data [OF assms(2) assms(1)])
  have eq: "countmap_get (merge_data A B) = countmap_get (merge_data B A)"
    using ab ba by (simp add: add_countmaps_commute)
  then show ?thesis using ab by (simp add: keys_countmap_get)
qed

text \<open>
  Two CountMaps with two sources each, one source shared: the two merges list the
  sources in different orders and hold the same entries.
\<close>

theorem merge_data_commutative_witness:
  "countmap_ok [(IPv4Address 1, [(0, 5)]), (IPv4Address 2, [(0, 1)])]
 \<and> countmap_ok [(IPv4Address 2, [(0, 2), (3600, 3)]), (IPv4Address 3, [(7200, 4)])]
 \<and> merge_data [(IPv4Address 1, [(0, 5)]), (IPv4Address 2, [(0, 1)])]
      [(IPv4Address 2, [(0, 2), (3600, 3)]), (IPv4Address 3, [(7200, 4)])]
    = [(IPv4Address 1, [(0, 5)]), (IPv4Address 2, [(0, 3), (3600, 3)]),
       (IPv4Address 3, [(7200, 4)])]
 \<and> merge_data [(IPv4Address 2, [(0, 2), (3600, 3)]), (IPv4Address 3, [(7200, 4)])]
      [(IPv4Address 1, [(0, 5)]), (IPv4Address 2, [(0, 1)])]
    = [(IPv4Address 2, [(0, 3), (3600, 3)]), (IPv4Address 3, [(7200, 4)]),
       (IPv4Address 1, [(0, 5)])]
 \<and> countmap_get (merge_data [(IPv4Address 1, [(0, 5)]), (IPv4Address 2, [(0, 1)])]
      [(IPv4Address 2, [(0, 2), (3600, 3)]), (IPv4Address 3, [(7200, 4)])])
    = countmap_get (merge_data [(IPv4Address 2, [(0, 2), (3600, 3)]), (IPv4Address 3, [(7200, 4)])]
      [(IPv4Address 1, [(0, 5)]), (IPv4Address 2, [(0, 1)])])"
proof -
  have a: "countmap_ok [(IPv4Address 1, [(0, 5)]), (IPv4Address 2, [(0, 1)])]"
    by (simp add: countmap_ok_def dict_ok_def)
  have b: "countmap_ok [(IPv4Address 2, [(0, 2), (3600, 3)]), (IPv4Address 3, [(7200, 4)])]"
    by (simp add: countmap_ok_def dict_ok_def)
  have ab: "merge_data [(IPv4Address 1, [(0, 5)]), (IPv4Address 2, [(0, 1)])]
      [(IPv4Address 2, [(0, 2), (3600, 3)]), (IPv4Address 3, [(7200, 4)])]
    = [(IPv4Address 1, [(0, 5)]), (IPv4Address 2, [(0, 3), (3600, 3)]),
       (IPv4Address 3, [(7200, 4)])]"
    by (simp add: merge_data_def dict_contains_def dict_set_def dict_get_def)
  have ba: "merge_data [(IPv4Address 2, [(0, 2), (3600, 3)]), (IPv4Address 3, [(7200, 4)])]
      [(IPv4Address 1, [(0, 5)]), (IPv4Address 2, [(0, 1)])]
    = [(IPv4Address 2, [(0, 3), (3600, 3)]), (IPv4Address 3, [(7200, 4)]),
       (IPv4Address 1, [(0, 5)])]"
    by (simp add: merge_data_def dict_contains_def dict_set_def dict_get_def)
  from merge_data_commutative [OF a b] a b ab ba show ?thesis
    by (simp only: simp_thms)
qed

section \<open>Properties of build\_allowlist\<close>

lemma py_max_nonempty:
  assumes "xs \<noteq> []"
  shows "py_max xs = Inr (Max (set xs))"
proof (cases xs)
  case Nil
  with assms show ?thesis by simp
next
  case (Cons x rest)
  then show ?thesis using Max.set_eq_fold [of x rest] by (simp add: py_max_def)
qed

lemma allowlist_loop_spec:
  assumes "1 \<le> param_steady config" and "dict_ok items"
  shows "\<exists>al. allowlist_loop config (earliest_time config now) now items acc = Inr al
           \<and> (\<forall>ip. map_of al ip =
                 (case map_of items ip of
                    None \<Rightarrow> map_of acc ip
                  | Some bs \<Rightarrow> (case allowlist_entry config now bs of
                                 None \<Rightarrow> map_of acc ip | Some peak \<Rightarrow> Some peak)))"
  using assms(2)
proof (induction items arbitrary: acc)
  case Nil
  show ?case by simp
next
  case (Cons p rest)
  obtain ip0 bs0 where p: "p = (ip0, bs0)" by (cases p)
  from Cons.prems p have fresh: "map_of rest ip0 = None" and rest_ok: "dict_ok rest"
    by (auto simp: dict_ok_def map_of_eq_None_iff)
  let ?traffic = "valid_traffic (earliest_time config now) now bs0"
  show ?case
  proof (cases "int (length ?traffic) < param_steady config")
    case True
    then have entry: "allowlist_entry config now bs0 = None"
      by (simp add: allowlist_entry_def)
    from Cons.IH [OF rest_ok, of acc] obtain al where
      al: "allowlist_loop config (earliest_time config now) now rest acc = Inr al"
      and spec: "\<And>ip. map_of al ip =
                 (case map_of rest ip of
                    None \<Rightarrow> map_of acc ip
                  | Some bs \<Rightarrow> (case allowlist_entry config now bs of
                                 None \<Rightarrow> map_of acc ip | Some peak \<Rightarrow> Some peak))"
      by blast
    have "allowlist_loop config (earliest_time config now) now (p # rest) acc = Inr al"
      using True al p by simp
    moreover have "map_of al ip =
                 (case map_of (p # rest) ip of
                    None \<Rightarrow> map_of acc ip
                  | Some bs \<Rightarrow> (case allowlist_entry config now bs of
                                 None \<Rightarrow> map_of acc ip | Some peak \<Rightarrow> Some peak))" for ip
      using spec [of ip] fresh entry p by simp
    ultimately show ?thesis by blast
  next
    case False
    with assms(1) have nonempty: "?traffic \<noteq> []" by auto
    then have peak: "py_max ?traffic = Inr (Max (set ?traffic))"
      by (rule py_max_nonempty)
    show ?thesis
    proof (cases "Max (set ?traffic) < param_heavy config")
      case True
      then have entry: "allowlist_entry config now bs0 = None"
        by (simp add: allowlist_entry_def)
      from Cons.IH [OF rest_ok, of acc] obtain al where
        al: "allowlist_loop config (earliest_time config now) now rest acc = Inr al"
        and spec: "\<And>ip. map_of al ip =
                 (case map_of rest ip of
                    None \<Rightarrow> map_of acc ip
                  | Some bs \<Rightarrow> (case allowlist_entry config now bs of
                                 None \<Rightarrow> map_of acc ip | Some peak \<Rightarrow> Some peak))"
        by blast
      have "allowlist_loop config (earliest_time config now) now (p # rest) acc = Inr al"
        using True \<open>\<not> int (length ?traffic) < param_steady config\<close> peak al p by simp
      moreover have "map_of al ip =
                 (case map_of (p # rest) ip of
                    None \<Rightarrow> map_of acc ip
                  | Some bs \<Rightarrow> (case allowlist_entry config now bs of
                                 None \<Rightarrow> map_of acc ip | Some peak \<Rightarrow> Some peak))" for ip
        using spec [of ip] fresh entry p by simp
      ultimately show ?thesis by blast
    next
      case heavy: False
      with \<open>\<not> int (length ?traffic) < param_steady config\<close>
      have entry: "allowlist_entry config now bs0 = Some (Max (set ?traffic))"
        by (simp add: allowlist_entry_def)
      from Cons.IH [OF rest_ok, of "dict_set acc ip0 (Max (set ?traffic))"] obtain al where
        al: "allowlist_loop config (earliest_time config now) now rest
               (dict_set acc ip0 (Max (set ?traffic))) = Inr al"
        and spec: "\<And>ip. map_of al ip =
                 (case map_of rest ip of
                    None \<Rightarrow> map_of (dict_set acc ip0 (Max (set ?traffic))) ip
                  | Some bs \<Rightarrow> (case allowlist_entry config now bs of
                                 None \<Rightarrow> map_of (dict_set acc ip0 (Max (set ?traffic))) ip
                               | Some peak \<Rightarrow> Some peak))"
        by blast
      have "allowlist_loop config (earliest_time config now) now (p # rest) acc = Inr al"
        using heavy \<open>\<not> int (length ?traffic) < param_steady config\<close> peak al p by simp
      moreover have "map_of al ip =
                 (case map_of (p # rest) ip of
                    None \<Rightarrow> map_of acc ip
                  | Some bs \<Rightarrow> (case allowlist_entry config now bs of
                                 None \<Rightarrow> map_of acc ip | Some peak \<Rightarrow> Some peak))" for ip
        using spec [of ip] fresh entry p
        by (cases "ip = ip0") (simp_all add: map_of_dict_set split: option.splits)
      ultimately show ?thesis by blast
    qed
  qed
qed

text \<open>
  C4. For every CountMap (a dict, so with pairwise different source keys), every
  configuration with a nonzero \<open>aggregation_time\<close> and a \<open>param_steady\<close> of at
  least one, and every reference time \<open>now\<close>, \<open>build_allowlist\<close> returns a
  mapping; it holds a source key if and only if at least \<open>param_steady\<close> of the
  bucket counts of that source lie in the window that \<open>build_allowlist\<close> evaluates
  (\<open>earliest_time <= time < now\<close>) and the largest of those counts is at least
  \<open>param_heavy\<close>, and the value stored is that largest count.
\<close>

theorem build_allowlist_rule:
  assumes "aggregation_time config \<noteq> 0" and "1 \<le> param_steady config" and "dict_ok data"
  shows "\<exists>allowlist. build_allowlist data config now = Inr allowlist
           \<and> (\<forall>ip. map_of allowlist ip =
                 (case map_of data ip of
                    None \<Rightarrow> None
                  | Some bs \<Rightarrow> allowlist_entry config now bs))"
proof -
  from allowlist_loop_spec [OF assms(2,3), of now "[]"] obtain al where
    al: "allowlist_loop config (earliest_time config now) now data [] = Inr al"
    and spec: "\<And>ip. map_of al ip =
                 (case map_of data ip of
                    None \<Rightarrow> map_of [] ip
                  | Some bs \<Rightarrow> (case allowlist_entry config now bs of
                                 None \<Rightarrow> map_of [] ip | Some peak \<Rightarrow> Some peak))"
    by blast
  have "build_allowlist data config now = Inr al"
    using assms(1) al by (simp add: build_allowlist_def int_bucket_def int_mod_def earliest_time_def now_bucket_def)
  moreover have "map_of al ip =
                 (case map_of data ip of
                    None \<Rightarrow> None
                  | Some bs \<Rightarrow> allowlist_entry config now bs)" for ip
    using spec [of ip] by (simp split: option.splits)
  ultimately show ?thesis by blast
qed

lemma build_allowlist_window:
  "aggregation_time config \<noteq> 0 \<Longrightarrow>
   build_allowlist data config now
     = allowlist_loop config (earliest_time config now) now data []"
  by (simp add: build_allowlist_def int_bucket_def int_mod_def earliest_time_def now_bucket_def)

lemma py_int_less: "of_int (py_int x) < x + 1"
  by (simp add: py_int_def) linarith

lemma py_int_le: "0 \<le> x \<Longrightarrow> of_int (py_int x) \<le> x"
  by (simp add: py_int_def)

text \<open>
  C1, as the code has it. For every configuration with \<open>aggregation_time >= 1\<close> and
  \<open>param_w_train >= 1\<close> and every reference time \<open>now\<close>, \<open>build_allowlist\<close>
  collects the counts of the buckets with \<open>earliest_time <= time < now\<close>: the end
  of the window is the reference time itself. The bucket at
  \<open>now_bucket - aggregation_time\<close> is collected. The bucket at \<open>now_bucket\<close> is
  collected exactly when \<open>now_bucket < now\<close>: it is left out when \<open>now\<close> is
  aligned (\<open>now = now_bucket\<close>), and it is collected for every \<open>now >= 0\<close> that
  is not aligned.
\<close>

theorem training_window:
  assumes "1 \<le> aggregation_time config" and "1 \<le> param_w_train config"
  shows "build_allowlist data config now
           = allowlist_loop config (earliest_time config now) now data []
       \<and> in_window (earliest_time config now) now
           (now_bucket config now - aggregation_time config)
       \<and> (in_window (earliest_time config now) now (now_bucket config now)
            \<longleftrightarrow> of_int (now_bucket config now) < now)
       \<and> (now = of_int (now_bucket config now)
            \<longrightarrow> \<not> in_window (earliest_time config now) now (now_bucket config now))
       \<and> (0 \<le> now \<and> now \<noteq> of_int (now_bucket config now)
            \<longrightarrow> in_window (earliest_time config now) now (now_bucket config now))"
proof -
  let ?agg = "aggregation_time config"
  let ?nb = "now_bucket config now"
  have len: "0 \<le> ?agg * (param_w_train config - 1)"
    using assms by simp
  then have start1: "earliest_time config now \<le> ?nb - ?agg"
    by (simp add: earliest_time_def algebra_simps)
  with assms(1) have start0: "earliest_time config now \<le> ?nb" by linarith
  have "0 \<le> py_int now mod ?agg" using assms(1) by simp
  then have nb_le: "?nb \<le> py_int now" by (simp add: now_bucket_def)
  have "?nb - ?agg \<le> py_int now - 1" using nb_le assms(1) by linarith
  then have "(of_int (?nb - ?agg) :: real) \<le> of_int (py_int now - 1)"
    by (simp only: of_int_le_iff)
  also have "\<dots> < now" using py_int_less [of now] by simp
  finally have before: "(of_int (?nb - ?agg) :: real) < now" .
  have aligned: "of_int ?nb \<le> now" if "0 \<le> now"
  proof -
    have "(of_int ?nb :: real) \<le> of_int (py_int now)" using nb_le by (simp only: of_int_le_iff)
    also have "\<dots> \<le> now" using that by (rule py_int_le)
    finally show ?thesis .
  qed
  show ?thesis
    using assms(1) start0 start1 before aligned
    by (auto simp: in_window_def build_allowlist_window)
qed

text \<open>
  The default configuration at the aligned time 7200 and at the time 9000, which is
  not aligned.
\<close>

theorem training_window_witness:
  "1 \<le> aggregation_time default_configuration
 \<and> 1 \<le> param_w_train default_configuration
 \<and> now_bucket default_configuration 7200 = 7200
 \<and> in_window (earliest_time default_configuration 7200) 7200 3600
 \<and> \<not> in_window (earliest_time default_configuration 7200) 7200 7200
 \<and> now_bucket default_configuration 9000 = 7200
 \<and> in_window (earliest_time default_configuration 9000) 9000 3600
 \<and> in_window (earliest_time default_configuration 9000) 9000 7200"
  using training_window [of default_configuration "[]" 7200]
    training_window [of default_configuration "[]" 9000]
  by (simp add: default_configuration_def now_bucket_def earliest_time_def py_int_def in_window_def)

text \<open>
  C1 as stated fails for a reference time that is not aligned: at \<open>now = 5400\<close>
  with \<open>aggregation_time = 3600\<close> the bucket of \<open>now\<close> is 3600, and a source
  seen in that bucket only is listed with the count of that bucket.
\<close>

theorem current_bucket_counted_counterexample:
  "now_bucket (default_configuration\<lparr>param_steady := 1\<rparr>) 5400 = 3600
 \<and> valid_traffic (earliest_time (default_configuration\<lparr>param_steady := 1\<rparr>) 5400) 5400
      [(3600, 200)] = [200]
 \<and> build_allowlist [(IPv4Address 0xC0000200, [(3600, 200)])]
      (default_configuration\<lparr>param_steady := 1\<rparr>) 5400
    = Inr [(IPv4Address 0xC0000200, 200)]"
  by (simp add: default_configuration_def now_bucket_def earliest_time_def py_int_def
        in_window_def valid_traffic_def build_allowlist_def int_bucket_def int_mod_def
        py_max_def dict_set_def)

text \<open>
  Three sources seen in the window of the default configuration: one is steady and
  heavy, one is heavy in two buckets only, one is steady and never heavy.
\<close>

theorem build_allowlist_rule_witness:
  "aggregation_time default_configuration \<noteq> 0
 \<and> 1 \<le> param_steady default_configuration
 \<and> dict_ok [(IPv4Address 0xC0000200, [(0, 200), (3600, 150), (7200, 130)]),
             (IPv4Address 0xC6336400, [(0, 10000), (3600, 10000)]),
             (IPv4Address 0xCB007100, [(0, 100), (3600, 90), (7200, 80)])]
 \<and> build_allowlist
      [(IPv4Address 0xC0000200, [(0, 200), (3600, 150), (7200, 130)]),
       (IPv4Address 0xC6336400, [(0, 10000), (3600, 10000)]),
       (IPv4Address 0xCB007100, [(0, 100), (3600, 90), (7200, 80)])]
      default_configuration 86400
    = Inr [(IPv4Address 0xC0000200, 200)]"
  using build_allowlist_rule [of default_configuration
      "[(IPv4Address 0xC0000200, [(0, 200), (3600, 150), (7200, 130)]),
       (IPv4Address 0xC6336400, [(0, 10000), (3600, 10000)]),
       (IPv4Address 0xCB007100, [(0, 100), (3600, 90), (7200, 80)])]" 86400]
  by (simp add: default_configuration_def py_int_def
        in_window_def valid_traffic_def build_allowlist_def int_bucket_def int_mod_def
        py_max_def dict_set_def dict_ok_def)

section \<open>Properties of aggregate\_flows\<close>

subsection \<open>How a call ends\<close>

lemma round_binary64_eq_0_iff: "round_binary64 x = 0 \<longleftrightarrow> x = 0"
proof
  assume r: "round_binary64 x = 0"
  show "x = 0"
  proof (rule ccontr)
    assume nz: "x \<noteq> 0"
    have pos: "0 < round_binary64 y" if "0 < y" for y
      using round_binary64_pos_bounds(1) [OF that] powr_gt_zero [of 2 "of_int (binade y)"]
      by linarith
    from nz consider "0 < x" | "0 < - x" by linarith
    then show False
    proof cases
      case 1
      from pos [OF this] r show False by simp
    next
      case 2
      from pos [OF this] r show False by (simp add: round_binary64_minus)
    qed
  qed
qed (simp add: round_binary64_def)

lemma float_of_int_eq_0_iff: "float_of_int k = 0 \<longleftrightarrow> k = 0"
  by (simp add: float_of_int_def round_binary64_eq_0_iff)

lemma spread_packets_returns:
  "aggregation \<noteq> 0 \<Longrightarrow> \<exists>bs'. spread_packets aggregation first_ts delta idx bs = Inr bs'"
proof (induction idx arbitrary: bs)
  case Nil
  show ?case by simp
next
  case (Cons i rest)
  from Cons.prems obtain bucket where
    "float_bucket (packet_time first_ts delta i) aggregation = Inr bucket"
    by (simp add: float_bucket_def float_rem_def float_of_int_eq_0_iff)
  with Cons.IH [OF Cons.prems] show ?case by simp
qed

lemma aggregate_flows_returns:
  assumes "source_network config (src_addr flow) = Inr src"
    and "aggregation_time config \<noteq> 0"
    and "int_bucket (py_int (timestamp (first_dt flow))) (aggregation_time config)
           = int_bucket (py_int (timestamp (last_dt flow))) (aggregation_time config)
         \<or> in_packets flow \<noteq> 1"
  shows "\<exists>data'. aggregate_flows data config flow = Inr data'"
proof -
  obtain fb lb where
    fb: "int_bucket (py_int (timestamp (first_dt flow))) (aggregation_time config) = Inr fb"
    and lb: "int_bucket (py_int (timestamp (last_dt flow))) (aggregation_time config) = Inr lb"
    using assms(2) by (simp add: int_bucket_def int_mod_def)
  show ?thesis
  proof (cases "fb = lb")
    case True
    then show ?thesis using assms(1) fb lb by (simp add: aggregate_flows_def Let_def)
  next
    case False
    with assms(3) fb lb have n: "in_packets flow \<noteq> 1" by auto
    then obtain delta where
      delta: "float_truediv (float_sub (timestamp (last_dt flow)) (timestamp (first_dt flow)))
                (float_of_int (in_packets flow - 1)) = Inr delta"
      by (simp add: float_truediv_def float_of_int_eq_0_iff)
    from spread_packets_returns [OF assms(2)] obtain bs' where
      "spread_packets (aggregation_time config) (timestamp (first_dt flow)) delta
         [0 .. in_packets flow - 1]
         (dict_get (if \<not> dict_contains data src then dict_set data src [] else data) src [])
       = Inr bs'"
      by blast
    then show ?thesis
      using False assms(1) fb lb delta by (simp add: aggregate_flows_def Let_def)
  qed
qed

lemma aggregate_flows_single:
  assumes "source_network config (src_addr flow) = Inr src"
    and "int_bucket (py_int (timestamp (first_dt flow))) (aggregation_time config) = Inr fb"
    and "int_bucket (py_int (timestamp (last_dt flow))) (aggregation_time config) = Inr fb"
  shows "aggregate_flows data config flow
           = Inr (dict_set (if \<not> dict_contains data src then dict_set data src [] else data)
                    src
                    (dict_set
                       (dict_get (if \<not> dict_contains data src then dict_set data src []
                                  else data) src [])
                       fb
                       (dict_get
                          (dict_get (if \<not> dict_contains data src then dict_set data src []
                                     else data) src [])
                          fb 0 + in_packets flow)))"
  using assms by (simp add: aggregate_flows_def Let_def)

lemma aggregate_flows_spread:
  assumes "source_network config (src_addr flow) = Inr src"
    and "int_bucket (py_int (timestamp (first_dt flow))) (aggregation_time config) = Inr fb"
    and "int_bucket (py_int (timestamp (last_dt flow))) (aggregation_time config) = Inr lb"
    and "fb \<noteq> lb"
    and "float_truediv (float_sub (timestamp (last_dt flow)) (timestamp (first_dt flow)))
           (float_of_int (in_packets flow - 1)) = Inr delta"
    and "spread_packets (aggregation_time config) (timestamp (first_dt flow)) delta
           [0 .. in_packets flow - 1]
           (dict_get (if \<not> dict_contains data src then dict_set data src [] else data) src [])
         = Inr bs'"
  shows "aggregate_flows data config flow
           = Inr (dict_set (if \<not> dict_contains data src then dict_set data src [] else data)
                    src bs')"
  using assms by (simp add: aggregate_flows_def Let_def)

lemma py_int_of_int: "py_int (of_int k) = k"
  by (simp add: py_int_def)

lemma py_int_minus_one: "py_int (- 1) = - 1"
  using py_int_of_int [of "- 1"] by simp

subsection \<open>Packet counts\<close>

lemma bucket_total_dict_set:
  "bucket_total (dict_set bs k v) = bucket_total bs - dict_get bs k 0 + v"
  by (induction bs) (auto simp: bucket_total_def dict_set_def dict_get_def)

lemma total_packets_dict_set:
  "total_packets (dict_set data k bs)
     = total_packets data - bucket_total (dict_get data k []) + bucket_total bs"
  by (induction data)
     (auto simp: total_packets_def dict_set_def dict_get_def bucket_total_def)

lemma dict_get_dict_set:
  "dict_get (dict_set d k v) k' dflt = (if k' = k then v else dict_get d k' dflt)"
  by (simp add: dict_get_def map_of_dict_set)

lemma spread_packets_total:
  "spread_packets aggregation first_ts delta idx bs = Inr bs' \<Longrightarrow>
   bucket_total bs' = bucket_total bs + int (length idx)"
proof (induction idx arbitrary: bs)
  case Nil
  then show ?case by simp
next
  case (Cons i rest)
  then show ?case
    by (auto simp: bucket_total_dict_set split: sum.splits)
qed

lemma spread_packets_grows:
  "spread_packets aggregation first_ts delta idx bs = Inr bs' \<Longrightarrow>
   dict_get bs time 0 \<le> dict_get bs' time 0"
proof (induction idx arbitrary: bs)
  case Nil
  then show ?case by simp
next
  case (Cons i rest)
  from Cons.prems obtain bucket where
    rest: "spread_packets aggregation first_ts delta rest
             (dict_set bs bucket (dict_get bs bucket 0 + 1)) = Inr bs'"
    by (auto split: sum.splits)
  have "dict_get bs time 0 \<le> dict_get (dict_set bs bucket (dict_get bs bucket 0 + 1)) time 0"
    by (simp add: dict_get_dict_set)
  also have "\<dots> \<le> dict_get bs' time 0" by (rule Cons.IH [OF rest])
  finally show ?case .
qed

text \<open>
  Packet conservation: a record with at least one packet that \<open>aggregate_flows\<close>
  aggregates adds exactly \<open>in_packets\<close> to the packets held by the CountMap, and
  no bucket count decreases. By \<open>aggregate_flows_returns\<close> this covers every record
  under a nonzero aggregation time and valid prefix lengths, except the records of
  one packet whose first and last timestamps fall into different buckets.
\<close>

lemma aggregate_flows_conserves_packets:
  assumes "aggregate_flows data config flow = Inr data'"
    and "1 \<le> in_packets flow"
  shows "total_packets data' = total_packets data + in_packets flow
       \<and> (\<forall>ip time. packet_count data ip time \<le> packet_count data' ip time)"
proof -
  from assms(1) obtain src where src: "source_network config (src_addr flow) = Inr src"
    by (auto simp: aggregate_flows_def split: sum.splits)
  define data1 where "data1 = (if \<not> dict_contains data src then dict_set data src [] else data)"
  define bs where "bs = dict_get data1 src []"
  have get1: "dict_get data1 ip [] = dict_get data ip []" for ip
    by (auto simp: data1_def dict_contains_def dict_get_def map_of_dict_set)
  have total1: "total_packets data1 = total_packets data"
    by (auto simp: data1_def total_packets_dict_set bucket_total_def dict_contains_def
          dict_get_def)
  have step: "total_packets (dict_set data1 src bs') = total_packets data + in_packets flow"
    if "bucket_total bs' = bucket_total bs + in_packets flow" for bs'
    using that total1 by (simp add: total_packets_dict_set bs_def)
  have grow: "packet_count data ip time \<le> packet_count (dict_set data1 src bs') ip time"
    if "\<And>t. dict_get bs t 0 \<le> dict_get bs' t 0" for bs' ip time
    using that [of time] get1 [of ip]
    by (auto simp: packet_count_def dict_get_dict_set bs_def)
  from assms(1) src consider
      (single) first_bucket where
        "data' = dict_set data1 src
                   (dict_set bs first_bucket (dict_get bs first_bucket 0 + in_packets flow))"
    | (spread) first_ts delta bs' where
        "spread_packets (aggregation_time config) first_ts delta
           [0 .. in_packets flow - 1] bs = Inr bs'"
        "data' = dict_set data1 src bs'"
    by (auto simp: aggregate_flows_def Let_def data1_def bs_def split: sum.splits if_splits)
  then show ?thesis
  proof cases
    case single
    have "dict_get bs t 0
            \<le> dict_get (dict_set bs first_bucket (dict_get bs first_bucket 0 + in_packets flow)) t 0"
      for t using assms(2) by (simp add: dict_get_dict_set)
    then show ?thesis
      using single grow by (simp add: step bucket_total_dict_set)
  next
    case spread
    from spread_packets_total [OF spread(1)] assms(2)
    have "bucket_total bs' = bucket_total bs + in_packets flow" by simp
    moreover have "dict_get bs t 0 \<le> dict_get bs' t 0" for t
      by (rule spread_packets_grows [OF spread(1)])
    ultimately show ?thesis using spread(2) grow by (simp add: step)
  qed
qed

subsection \<open>The example records under the default configuration\<close>

lemma spanning_flow_source:
  "source_network default_configuration (src_addr (spanning_flow n))
     = Inr (IPv4Address 0xC0000200)"
  by (simp add: spanning_flow_def default_configuration_def source_network_def
        network_address_def prefix_mask_def mask_eq_exp_minus_1)

lemma spanning_flow_timestamps:
  "timestamp (first_dt (spanning_flow n)) = 1704070799"
  "timestamp (last_dt (spanning_flow n)) = 1704070801"
  by (simp_all add: spanning_flow_def timestamp_def instant_us_def)

lemma spanning_flow_buckets:
  "int_bucket (py_int (timestamp (first_dt (spanning_flow n))))
     (aggregation_time default_configuration) = Inr 1704067200"
  "int_bucket (py_int (timestamp (last_dt (spanning_flow n))))
     (aggregation_time default_configuration) = Inr 1704070800"
  by (simp_all add: spanning_flow_timestamps default_configuration_def int_bucket_def
        int_mod_def py_int_def)

lemma spanning_flow_three:
  "aggregate_flows [] default_configuration (spanning_flow 3)
     = Inr [(IPv4Address 0xC0000200, [(1704067200, 1), (1704070800, 2)])]"
proof -
  have agg: "aggregation_time default_configuration = 3600"
    by (simp add: default_configuration_def)
  have n: "in_packets (spanning_flow 3) = 3" by (simp add: spanning_flow_def)
  have delta: "float_truediv (float_sub 1704070801 1704070799) (float_of_int (3 - 1)) = Inr 1"
    by (simp add: float_truediv_def float_sub_def float_of_int_def)
  have t: "packet_time 1704070799 1 0 = 1704070799" "packet_time 1704070799 1 1 = 1704070800"
    "packet_time 1704070799 1 2 = 1704070801"
    by (simp_all add: packet_time_def float_add_def float_mul_def float_of_int_def)
  have b: "float_bucket 1704070799 3600 = Inr 1704067200"
    "float_bucket 1704070800 3600 = Inr 1704070800"
    "float_bucket 1704070801 3600 = Inr 1704070800"
    by (simp_all add: float_bucket_def float_of_int_def float_rem_def fmod_def py_int_def
          float_sub_def)
  have idx: "[0 .. 3 - 1] = [0, 1, 2::int]" by (simp add: upto_rec1)
  have spread: "spread_packets 3600 1704070799 1 [0, 1, 2] []
                  = Inr [(1704067200, 1), (1704070800, 2)]"
    by (simp add: t b dict_set_def dict_get_def)
  have p5: "float_truediv (float_sub (timestamp (last_dt (spanning_flow 3)))
              (timestamp (first_dt (spanning_flow 3))))
              (float_of_int (in_packets (spanning_flow 3) - 1)) = Inr 1"
    by (simp only: spanning_flow_timestamps n delta)
  have bs0: "dict_get (if \<not> dict_contains [] (IPv4Address 0xC0000200)
                       then dict_set [] (IPv4Address 0xC0000200) [] else [])
               (IPv4Address 0xC0000200) [] = []"
    by (simp add: dict_contains_def dict_set_def dict_get_def)
  have p6: "spread_packets (aggregation_time default_configuration)
              (timestamp (first_dt (spanning_flow 3))) 1
              [0 .. in_packets (spanning_flow 3) - 1]
              (dict_get (if \<not> dict_contains [] (IPv4Address 0xC0000200)
                         then dict_set [] (IPv4Address 0xC0000200) [] else [])
                 (IPv4Address 0xC0000200) [])
            = Inr [(1704067200, 1), (1704070800, 2)]"
    by (simp only: agg spanning_flow_timestamps n idx bs0 spread)
  show ?thesis
    using aggregate_flows_spread [OF spanning_flow_source spanning_flow_buckets _ p5 p6]
    by (simp add: dict_contains_def dict_set_def)
qed

subsection \<open>A record of one packet\<close>

text \<open>
  C3, where the code departs from it. A record with \<open>in_packets == 1\<close> takes the
  single-bucket branch only when its first and last timestamps fall into the same
  bucket. When they fall into different buckets (a nonzero aggregation time, valid
  prefix lengths), \<open>aggregate_flows\<close> enters the spreading branch and divides by
  \<open>in_packets - 1 = 0\<close>: the call raises \<open>ZeroDivisionError\<close>.
\<close>

theorem aggregate_flows_one_packet_two_buckets:
  assumes "source_network config (src_addr flow) = Inr src"
    and "int_bucket (py_int (timestamp (first_dt flow))) (aggregation_time config) = Inr fb"
    and "int_bucket (py_int (timestamp (last_dt flow))) (aggregation_time config) = Inr lb"
    and "fb \<noteq> lb" and "in_packets flow = 1"
  shows "aggregate_flows data config flow = Inl ZeroDivisionError"
  using assms
  by (simp add: aggregate_flows_def Let_def float_truediv_def float_of_int_def round_binary64_def)

text \<open>
  One packet, first seen at 00:59:59 and last seen at 01:00:01, with
  \<open>last >= first\<close>: the default configuration puts the two timestamps into the
  buckets 1704067200 and 1704070800.
\<close>

theorem aggregate_flows_one_packet_two_buckets_witness:
  "source_network default_configuration (src_addr (spanning_flow 1))
     = Inr (IPv4Address 0xC0000200)
 \<and> int_bucket (py_int (timestamp (first_dt (spanning_flow 1))))
       (aggregation_time default_configuration) = Inr 1704067200
 \<and> int_bucket (py_int (timestamp (last_dt (spanning_flow 1))))
       (aggregation_time default_configuration) = Inr 1704070800
 \<and> instant_us (first_dt (spanning_flow 1)) \<le> instant_us (last_dt (spanning_flow 1))
 \<and> in_packets (spanning_flow 1) = 1
 \<and> aggregate_flows [] default_configuration (spanning_flow 1) = Inl ZeroDivisionError"
proof -
  have n: "in_packets (spanning_flow 1) = 1" by (simp add: spanning_flow_def)
  have "instant_us (first_dt (spanning_flow 1)) \<le> instant_us (last_dt (spanning_flow 1))"
    by (simp add: spanning_flow_def instant_us_def)
  moreover have "aggregate_flows [] default_configuration (spanning_flow 1)
                   = Inl ZeroDivisionError"
    by (rule aggregate_flows_one_packet_two_buckets
          [OF spanning_flow_source spanning_flow_buckets _ n]) simp
  ultimately show ?thesis
    using spanning_flow_source [of 1] spanning_flow_buckets [of 1] n by simp
qed

text \<open>
  C2 at the record on which the code departs from it. The CountMap holds five packets
  of the source network 192.0.2.0 in the bucket 1704067200. The one-packet record
  that spans two buckets satisfies \<open>last >= first\<close> and \<open>in_packets >= 1\<close>; the
  call raises \<open>ZeroDivisionError\<close> before any bucket is credited, so the packet of
  this record is counted nowhere.
\<close>

theorem one_packet_record_not_counted:
  "1 \<le> in_packets (spanning_flow 1)
 \<and> instant_us (first_dt (spanning_flow 1)) \<le> instant_us (last_dt (spanning_flow 1))
 \<and> aggregate_flows [(IPv4Address 0xC0000200, [(1704067200, 5)])] default_configuration
       (spanning_flow 1) = Inl ZeroDivisionError"
  by (simp add: spanning_flow_def aggregate_flows_def default_configuration_def
        source_network_def network_address_def prefix_mask_def mask_eq_exp_minus_1
        timestamp_def instant_us_def py_int_def int_bucket_def int_mod_def dict_contains_def
        dict_set_def dict_get_def float_truediv_def float_of_int_def float_sub_def)

section \<open>Bucket alignment of aggregate\_flows\<close>

lemma round_le_int:
  assumes "x \<le> of_int k" and "\<bar>k\<bar> \<le> 2 ^ 53"
  shows "round_binary64 x \<le> of_int k"
  using monoD [OF mono_round_binary64 assms(1)] round_binary64_of_int [OF assms(2)] by simp

lemma round_ge_int:
  assumes "of_int k \<le> x" and "\<bar>k\<bar> \<le> 2 ^ 53"
  shows "of_int k \<le> round_binary64 x"
  using monoD [OF mono_round_binary64 assms(1)] round_binary64_of_int [OF assms(2)] by simp

lemma round_nonneg: "0 \<le> x \<Longrightarrow> 0 \<le> round_binary64 x"
  using round_ge_int [of 0 x] by simp

lemma float_bucket_aligned:
  assumes "0 \<le> time" and "time \<le> 2 ^ 53" and "0 < aggregation" and "aggregation \<le> 2 ^ 53"
  shows "float_bucket time aggregation = Inr (aggregation * \<lfloor>time / of_int aggregation\<rfloor>)"
proof -
  let ?wx = "of_int aggregation :: real"
  let ?q = "\<lfloor>time / ?wx\<rfloor>"
  have wx: "float_of_int aggregation = ?wx"
    using assms(3,4) by (simp add: float_of_int_def round_binary64_of_int)
  have wpos: "0 < ?wx" using assms(3) by simp
  have qnn: "0 \<le> time / ?wx" using assms(1) wpos by simp
  then have trunc: "py_int (time / ?wx) = ?q" by (simp add: py_int_def)
  have m0: "fmod time ?wx = time - ?wx * of_int ?q" by (simp add: fmod_def trunc)
  have "?wx * of_int ?q \<le> ?wx * (time / ?wx)"
    using wpos by (intro mult_left_mono of_int_floor_le) simp
  also have "\<dots> = time" using wpos by simp
  finally have below: "?wx * of_int ?q \<le> time" .
  then have nonneg: "0 \<le> fmod time ?wx" by (simp add: m0)
  have rem: "float_rem time ?wx = Inr (fmod time ?wx)"
    using wpos nonneg by (auto simp: float_rem_def Let_def)
  have qpos: "0 \<le> ?q" using qnn by simp
  have "(of_int (aggregation * ?q) :: real) \<le> 2 ^ 53" using below assms(2) by simp
  then have "aggregation * ?q \<le> 2 ^ 53"
    by (metis of_int_le_iff of_int_numeral of_int_power)
  moreover have "0 \<le> aggregation * ?q" using assms(3) qpos by simp
  ultimately have small: "\<bar>aggregation * ?q\<bar> \<le> 2 ^ 53" by simp
  have "float_sub time (fmod time ?wx) = round_binary64 (of_int (aggregation * ?q))"
    by (simp add: float_sub_def m0)
  also have "\<dots> = of_int (aggregation * ?q)" by (rule round_binary64_of_int [OF small])
  finally have sub: "float_sub time (fmod time ?wx) = of_int (aggregation * ?q)" .
  have "py_int (of_int (aggregation * ?q)) = aggregation * ?q"
    by (simp only: py_int_def floor_of_int ceiling_of_int if_cancel)
  then show ?thesis by (simp add: float_bucket_def wx rem sub)
qed

lemma packet_time_bounds:
  fixes uf ul n i :: int
  assumes "0 \<le> uf" and "uf \<le> ul" and "ul \<le> 1000000 * (2 ^ 53 - n)"
    and "2 \<le> n" and "0 \<le> i" and "i \<le> n - 1"
    and delta: "float_truediv
             (float_sub (round_binary64 (of_int ul / 1000000)) (round_binary64 (of_int uf / 1000000)))
             (float_of_int (n - 1)) = Inr delta"
  shows "0 \<le> packet_time (round_binary64 (of_int uf / 1000000)) delta i"
    and "packet_time (round_binary64 (of_int uf / 1000000)) delta i \<le> 2 ^ 53"
proof -
  define f where "f = round_binary64 (of_int uf / 1000000)"
  define l where "l = round_binary64 (of_int ul / 1000000)"
  define L :: int where "L = 2 ^ 53 - n"
  define tt where "tt = float_sub l f"
  define T where "T = \<lceil>l - f\<rceil>"
  define D where "D = \<lceil>tt / of_int (n - 1)\<rceil>"
  have L0: "0 \<le> L" using assms(1-3) by (simp add: L_def)
  have L53: "\<bar>L\<bar> \<le> 2 ^ 53" using L0 assms(4) by (simp add: L_def)
  have n53: "\<bar>n - 1\<bar> \<le> 2 ^ 53" using L0 assms(4) by (simp add: L_def)
  have f0: "0 \<le> f" unfolding f_def using assms(1) by (intro round_nonneg) simp
  have fl: "f \<le> l" unfolding f_def l_def
    using assms(2) by (intro monoD [OF mono_round_binary64]) simp
  have "(of_int ul :: real) \<le> of_int (1000000 * L)"
    using assms(3) unfolding L_def by (simp only: of_int_le_iff)
  then have "(of_int ul :: real) / 1000000 \<le> of_int L" by simp
  then have lL: "l \<le> of_int L" unfolding l_def by (rule round_le_int [OF _ L53])
  have T0: "0 \<le> T" using fl by (simp add: T_def)
  have TL: "T \<le> L" using lL f0 by (simp add: T_def ceiling_le_iff)
  have T53: "\<bar>T\<bar> \<le> 2 ^ 53" using T0 TL L53 by simp
  have tt0: "0 \<le> tt" unfolding tt_def float_sub_def using fl by (intro round_nonneg) simp
  have ttT: "tt \<le> of_int T" unfolding tt_def float_sub_def
    by (rule round_le_int [OF _ T53]) (simp add: T_def)
  have cn: "float_of_int (n - 1) = of_int (n - 1)"
    by (simp only: float_of_int_def round_binary64_of_int [OF n53])
  have npos: "(1::real) \<le> of_int (n - 1)" using assms(4) by simp
  have d: "delta = round_binary64 (tt / of_int (n - 1))"
    using delta npos by (simp add: float_truediv_def cn tt_def l_def f_def split: if_splits)
  have q0: "0 \<le> tt / of_int (n - 1)" using tt0 npos by simp
  have "tt / of_int (n - 1) \<le> tt" using tt0 npos by (simp add: field_simps mult_left_mono)
  then have qT: "tt / of_int (n - 1) \<le> of_int T" using ttT by linarith
  have D0: "0 \<le> D" using q0 by (simp add: D_def)
  have DT: "D \<le> T" using qT by (simp add: D_def ceiling_le_iff)
  have D53: "\<bar>D\<bar> \<le> 2 ^ 53" using D0 DT T53 by simp
  have delta0: "0 \<le> delta" unfolding d using q0 by (rule round_nonneg)
  have deltaD: "delta \<le> of_int D" unfolding d
    by (rule round_le_int [OF _ D53]) (simp add: D_def)
  have Dlt: "of_int D < tt / of_int (n - 1) + 1" unfolding D_def by linarith
  have i53: "\<bar>i\<bar> \<le> 2 ^ 53" using assms(5,6) n53 by simp
  have ci: "float_of_int i = of_int i"
    by (simp only: float_of_int_def round_binary64_of_int [OF i53])
  have i0: "(0::real) \<le> of_int i" and iN: "(of_int i :: real) \<le> of_int (n - 1)"
    using assms(5,6) by simp_all
  have "of_int i * delta \<le> of_int (n - 1) * of_int D"
    using i0 iN delta0 deltaD by (intro mult_mono) simp_all
  also have "\<dots> \<le> of_int (n - 1) * (tt / of_int (n - 1) + 1)"
    using Dlt npos by (intro mult_left_mono) simp_all
  also have "\<dots> = tt + of_int (n - 1)" using npos by (simp add: field_simps)
  also have "\<dots> \<le> of_int (T + (n - 1))" using ttT by simp
  finally have prod_le: "of_int i * delta \<le> of_int (T + (n - 1))" .
  have P53: "\<bar>T + (n - 1)\<bar> \<le> 2 ^ 53" using T0 TL assms(4) by (simp add: L_def)
  have prod0: "0 \<le> float_mul (float_of_int i) delta"
    unfolding float_mul_def ci using i0 delta0 by (intro round_nonneg) simp
  have prodP: "float_mul (float_of_int i) delta \<le> of_int (T + (n - 1))"
    unfolding float_mul_def ci by (rule round_le_int [OF prod_le P53])
  have Tlt: "of_int T < l - f + 1" unfolding T_def by linarith
  have "f + float_mul (float_of_int i) delta \<le> f + of_int T + of_int (n - 1)"
    using prodP by simp
  also have "\<dots> \<le> of_int L + of_int n" using Tlt lL by simp
  also have "\<dots> = of_int (2 ^ 53)" by (simp add: L_def)
  finally have sum_le: "f + float_mul (float_of_int i) delta \<le> of_int (2 ^ 53)" .
  show "0 \<le> packet_time (round_binary64 (of_int uf / 1000000)) delta i"
    unfolding packet_time_def float_add_def f_def [symmetric]
    using f0 prod0 by (intro round_nonneg) simp
  have "packet_time (round_binary64 (of_int uf / 1000000)) delta i \<le> of_int (2 ^ 53)"
    unfolding packet_time_def float_add_def f_def [symmetric]
    by (rule round_le_int [OF sum_le]) simp
  then show "packet_time (round_binary64 (of_int uf / 1000000)) delta i \<le> 2 ^ 53" by simp
qed

lemma keys_aligned_dict_set:
  "keys_aligned aggregation bs \<Longrightarrow> k mod aggregation = 0 \<Longrightarrow>
   keys_aligned aggregation (dict_set bs k v)"
  by (induction bs) (auto simp: keys_aligned_def dict_set_def)

lemma buckets_aligned_dict_set:
  "buckets_aligned aggregation data \<Longrightarrow> keys_aligned aggregation bs \<Longrightarrow>
   buckets_aligned aggregation (dict_set data k bs)"
  by (induction data) (auto simp: buckets_aligned_def dict_set_def)

lemma keys_aligned_dict_get:
  "buckets_aligned aggregation data \<Longrightarrow> keys_aligned aggregation (dict_get data k [])"
  by (induction data) (auto simp: buckets_aligned_def dict_get_def keys_aligned_def)

lemma int_bucket_aligned: "int_bucket t aggregation = Inr b \<Longrightarrow> b mod aggregation = 0"
  by (auto simp: int_bucket_def int_mod_def split: if_splits)

lemma spread_packets_aligned:
  assumes "0 < aggregation" and "aggregation \<le> 2 ^ 53"
    and "\<forall>i \<in> set idx. 0 \<le> packet_time first_ts delta i \<and> packet_time first_ts delta i \<le> 2 ^ 53"
    and "keys_aligned aggregation bs"
    and "spread_packets aggregation first_ts delta idx bs = Inr bs'"
  shows "keys_aligned aggregation bs'"
  using assms(3-5)
proof (induction idx arbitrary: bs)
  case Nil
  then show ?case by simp
next
  case (Cons i rest)
  let ?b = "aggregation * \<lfloor>packet_time first_ts delta i / of_int aggregation\<rfloor>"
  from Cons.prems(1) have "0 \<le> packet_time first_ts delta i"
    and "packet_time first_ts delta i \<le> 2 ^ 53" by simp_all
  then have b: "float_bucket (packet_time first_ts delta i) aggregation = Inr ?b"
    using assms(1,2) by (intro float_bucket_aligned)
  have "keys_aligned aggregation (dict_set bs ?b (dict_get bs ?b 0 + 1))"
    using Cons.prems(2) by (intro keys_aligned_dict_set) simp_all
  moreover have "spread_packets aggregation first_ts delta rest
                   (dict_set bs ?b (dict_get bs ?b 0 + 1)) = Inr bs'"
    using Cons.prems(3) b by simp
  moreover have "\<forall>i \<in> set rest. 0 \<le> packet_time first_ts delta i
                   \<and> packet_time first_ts delta i \<le> 2 ^ 53"
    using Cons.prems(1) by simp
  ultimately show ?case using Cons.IH by blast
qed

lemma spanned_aggregation_bound:
  fixes uf ul n :: int
  assumes "0 < aggregation" and "0 \<le> uf" and "uf \<le> ul" and "ul \<le> 1000000 * (2 ^ 53 - n)"
    and "2 \<le> n"
    and "int_bucket (py_int (round_binary64 (of_int uf / 1000000))) aggregation = Inr fb"
    and "int_bucket (py_int (round_binary64 (of_int ul / 1000000))) aggregation = Inr lb"
    and "fb \<noteq> lb"
  shows "aggregation \<le> 2 ^ 53"
proof (rule ccontr)
  assume "\<not> aggregation \<le> 2 ^ 53"
  then have big: "2 ^ 53 < aggregation" by simp
  define a where "a = py_int (round_binary64 (of_int uf / 1000000))"
  define b where "b = py_int (round_binary64 (of_int ul / 1000000))"
  have f0: "0 \<le> round_binary64 (of_int uf / 1000000)"
    using assms(2) by (intro round_nonneg) simp
  have fl: "round_binary64 (of_int uf / 1000000) \<le> round_binary64 (of_int ul / 1000000)"
    using assms(3) by (intro monoD [OF mono_round_binary64]) simp
  have L53: "\<bar>2 ^ 53 - n\<bar> \<le> (2 ^ 53 :: int)" using assms(2-5) by simp
  have "(of_int ul :: real) \<le> of_int (1000000 * (2 ^ 53 - n))"
    using assms(4) by (simp only: of_int_le_iff)
  then have "(of_int ul :: real) / 1000000 \<le> of_int (2 ^ 53 - n)" by simp
  then have lL: "round_binary64 (of_int ul / 1000000) \<le> of_int (2 ^ 53 - n)"
    by (rule round_le_int [OF _ L53])
  have a0: "0 \<le> a" using f0 by (simp add: a_def py_int_def)
  have ab: "a \<le> b" using f0 fl by (simp add: a_def b_def py_int_def floor_mono)
  have "of_int b \<le> round_binary64 (of_int ul / 1000000)"
    using f0 fl by (simp add: b_def py_int_def)
  with lL have "(of_int b :: real) \<le> of_int (2 ^ 53 - n)" by linarith
  then have "b \<le> 2 ^ 53 - n" by (simp only: of_int_le_iff)
  with assms(5) have "b < aggregation" using big by linarith
  with a0 ab have "a mod aggregation = a" "b mod aggregation = b" by simp_all
  with assms(1,6,7) have "fb = 0" "lb = 0"
    by (simp_all add: int_bucket_def int_mod_def a_def b_def)
  with assms(8) show False by simp
qed

text \<open>
  Where the floating-point computation is exact, the spreading branch agrees with the
  integer computation of the first and last bucket. A call of \<open>aggregate_flows\<close>
  that returns keeps every bucket key a multiple of \<open>aggregation_time\<close>
  \<^item> in the single-bucket branch, for every record and every configuration;
  \<^item> in the spreading branch, for every configuration with a positive
    \<open>aggregation_time\<close> and every record with \<open>0 <= first <= last\<close> whose last
    timestamp, in seconds, plus \<open>in_packets\<close> is at most \<open>2^53\<close>: then no packet
    time exceeds \<open>2^53\<close>, and the aggregation time of a record that spans two
    buckets is a float.
\<close>

lemma aggregate_flows_aligned_exact:
  assumes "buckets_aligned (aggregation_time config) data"
    and "aggregate_flows data config flow = Inr data'"
    and "int_bucket (py_int (timestamp (first_dt flow))) (aggregation_time config)
           = int_bucket (py_int (timestamp (last_dt flow))) (aggregation_time config)
         \<or> (0 < aggregation_time config
            \<and> 0 \<le> instant_us (first_dt flow)
            \<and> instant_us (first_dt flow) \<le> instant_us (last_dt flow)
            \<and> instant_us (last_dt flow) \<le> 1000000 * (2 ^ 53 - in_packets flow))"
  shows "buckets_aligned (aggregation_time config) data'"
proof -
  let ?agg = "aggregation_time config"
  from assms(2) obtain src where src: "source_network config (src_addr flow) = Inr src"
    by (auto simp: aggregate_flows_def split: sum.splits)
  define data1 where "data1 = (if \<not> dict_contains data src then dict_set data src [] else data)"
  define bs where "bs = dict_get data1 src []"
  have al1: "buckets_aligned ?agg data1"
    using assms(1) by (simp add: data1_def buckets_aligned_dict_set keys_aligned_def)
  then have albs: "keys_aligned ?agg bs" by (simp add: bs_def keys_aligned_dict_get)
  from assms(2) src consider
      (single) fb where
        "int_bucket (py_int (timestamp (first_dt flow))) ?agg = Inr fb"
        "data' = dict_set data1 src (dict_set bs fb (dict_get bs fb 0 + in_packets flow))"
    | (spread) fb lb delta bs' where
        "int_bucket (py_int (timestamp (first_dt flow))) ?agg = Inr fb"
        "int_bucket (py_int (timestamp (last_dt flow))) ?agg = Inr lb"
        "fb \<noteq> lb"
        "float_truediv (float_sub (timestamp (last_dt flow)) (timestamp (first_dt flow)))
           (float_of_int (in_packets flow - 1)) = Inr delta"
        "spread_packets ?agg (timestamp (first_dt flow)) delta [0 .. in_packets flow - 1] bs
           = Inr bs'"
        "data' = dict_set data1 src bs'"
    by (auto simp: aggregate_flows_def Let_def data1_def bs_def split: sum.splits if_splits)
  then show ?thesis
  proof cases
    case single
    from int_bucket_aligned [OF single(1)] albs
    have "keys_aligned ?agg (dict_set bs fb (dict_get bs fb 0 + in_packets flow))"
      by (intro keys_aligned_dict_set)
    with al1 single(2) show ?thesis by (simp add: buckets_aligned_dict_set)
  next
    case spread
    from spread(1-3) assms(3) have float_ok:
      "0 < ?agg" "0 \<le> instant_us (first_dt flow)"
      "instant_us (first_dt flow) \<le> instant_us (last_dt flow)"
      "instant_us (last_dt flow) \<le> 1000000 * (2 ^ 53 - in_packets flow)"
      by auto
    have "keys_aligned ?agg bs'"
    proof (cases "2 \<le> in_packets flow")
      case True
      have agg53: "?agg \<le> 2 ^ 53"
        by (rule spanned_aggregation_bound
              [OF float_ok True spread(1) [unfolded timestamp_def]
                 spread(2) [unfolded timestamp_def] spread(3)])
      have "\<forall>i \<in> set [0 .. in_packets flow - 1].
              0 \<le> packet_time (timestamp (first_dt flow)) delta i
            \<and> packet_time (timestamp (first_dt flow)) delta i \<le> 2 ^ 53"
      proof
        fix i assume "i \<in> set [0 .. in_packets flow - 1]"
        then have i: "0 \<le> i" "i \<le> in_packets flow - 1" by simp_all
        from packet_time_bounds [OF float_ok(2,3,4) True i spread(4) [unfolded timestamp_def]]
        show "0 \<le> packet_time (timestamp (first_dt flow)) delta i
            \<and> packet_time (timestamp (first_dt flow)) delta i \<le> 2 ^ 53"
          by (simp add: timestamp_def)
      qed
      from spread_packets_aligned [OF float_ok(1) agg53 this albs spread(5)] show ?thesis .
    next
      case False
      have "in_packets flow \<noteq> 1"
        using spread(4) by (auto simp: float_truediv_def float_of_int_def round_binary64_def)
      with False have "[0 .. in_packets flow - 1] = []" by simp
      with spread(5) albs show ?thesis by simp
    qed
    with al1 spread(6) show ?thesis by (simp add: buckets_aligned_dict_set)
  qed
qed

text \<open>
  Three packets between 00:59:59 and 01:00:01 on 2024-01-01 under the default
  configuration: the packet times 1704070799, 1704070800 and 1704070801 fall into the
  buckets 1704067200 and 1704070800.
\<close>

lemma aggregate_flows_aligned_example:
  "buckets_aligned (aggregation_time default_configuration) []
 \<and> aggregate_flows [] default_configuration (spanning_flow 3)
     = Inr [(IPv4Address 0xC0000200, [(1704067200, 1), (1704070800, 2)])]
 \<and> 0 < aggregation_time default_configuration
 \<and> 0 \<le> instant_us (first_dt (spanning_flow 3))
 \<and> instant_us (first_dt (spanning_flow 3)) \<le> instant_us (last_dt (spanning_flow 3))
 \<and> instant_us (last_dt (spanning_flow 3)) \<le> 1000000 * (2 ^ 53 - in_packets (spanning_flow 3))
 \<and> buckets_aligned (aggregation_time default_configuration)
       [(IPv4Address 0xC0000200, [(1704067200, 1), (1704070800, 2)])]"
proof -
  have a: "buckets_aligned (aggregation_time default_configuration) []"
    by (simp add: buckets_aligned_def)
  have c: "0 < aggregation_time default_configuration
      \<and> 0 \<le> instant_us (first_dt (spanning_flow 3))
      \<and> instant_us (first_dt (spanning_flow 3)) \<le> instant_us (last_dt (spanning_flow 3))
      \<and> instant_us (last_dt (spanning_flow 3))
          \<le> 1000000 * (2 ^ 53 - in_packets (spanning_flow 3))"
    by (simp add: default_configuration_def spanning_flow_def instant_us_def)
  from aggregate_flows_aligned_exact [OF a spanning_flow_three disjI2, OF c] a spanning_flow_three c
  show ?thesis by (simp only: simp_thms)
qed

text \<open>
  C5 at a concrete record. \<open>aggregate_flows\<close> computes the first and the last
  bucket of a record on integers, \<open>first_ts - (first_ts % config.aggregation_time)\<close>,
  and the bucket of every packet of the spreading branch on floats,
  \<open>int(time - (time % config.aggregation_time))\<close>, where the aggregation time is
  converted to binary64. With \<open>aggregation_time = 2^53 + 1\<close>, which is no float,
  the record of three packets from 1969-12-31T23:59:59Z to 1970-01-01T00:00:01Z has
  the first bucket \<open>-(2^53 + 1)\<close> and the last bucket 0 on the integers. In the
  spreading branch the aggregation time becomes the float \<open>2^53\<close>, and the first
  packet, at the time \<open>-1.0\<close> of \<open>first\<close>, is credited to the bucket
  \<open>-2^53\<close>: the key inserted is congruent to 1 modulo \<open>aggregation_time\<close>, not to
  0, and it differs from the first bucket of the same call.
\<close>

theorem aggregate_flows_unaligned_bucket:
  "int_bucket (py_int (timestamp (first_dt epoch_flow))) 9007199254740993
     = Inr (- 9007199254740993)
 \<and> int_bucket (py_int (timestamp (last_dt epoch_flow))) 9007199254740993 = Inr 0
 \<and> aggregate_flows [] (default_configuration\<lparr>aggregation_time := 9007199254740993\<rparr>) epoch_flow
     = Inr [(IPv4Address 0xC0000200, [(- 9007199254740992, 1), (0, 2)])]
 \<and> int_mod (- 9007199254740992) 9007199254740993 = Inr 1
 \<and> \<not> buckets_aligned 9007199254740993
       [(IPv4Address 0xC0000200, [(- 9007199254740992, 1), (0, 2)])]"
proof -
  let ?config = "default_configuration\<lparr>aggregation_time := 9007199254740993\<rparr>"
  have src: "source_network ?config (src_addr epoch_flow) = Inr (IPv4Address 0xC0000200)"
    by (simp add: epoch_flow_def default_configuration_def source_network_def
          network_address_def prefix_mask_def mask_eq_exp_minus_1)
  have agg: "aggregation_time ?config = 9007199254740993" by simp
  have n: "in_packets epoch_flow = 3" by (simp add: epoch_flow_def)
  have first: "timestamp (first_dt epoch_flow) = - 1"
    and last: "timestamp (last_dt epoch_flow) = 1"
    by (simp_all add: epoch_flow_def timestamp_def instant_us_def)
  have fb: "int_bucket (py_int (- 1)) 9007199254740993 = Inr (- 9007199254740993)"
    and lb: "int_bucket (py_int 1) 9007199254740993 = Inr 0"
    by (simp_all add: int_bucket_def int_mod_def py_int_minus_one) (simp add: py_int_def)
  have delta: "float_truediv (float_sub 1 (- 1)) (float_of_int (3 - 1)) = Inr 1"
    by (simp add: float_truediv_def float_sub_def float_of_int_def)
  have wx: "float_of_int 9007199254740993 = 9007199254740992"
    by (simp add: float_of_int_def round_binary64_tie)
  have t0: "packet_time (- 1) 1 0 = - 1" and t1: "packet_time (- 1) 1 1 = 0"
    and t2: "packet_time (- 1) 1 2 = 1"
    by (simp_all add: packet_time_def float_add_def float_mul_def float_of_int_def)
  have "\<lceil>- 1 / 9007199254740992 :: real\<rceil> = 0" by (rule ceiling_unique) simp_all
  then have "py_int (- 1 / 9007199254740992) = 0" by (simp add: py_int_def)
  then have m0: "fmod (- 1) 9007199254740992 = - 1" by (simp add: fmod_def)
  have "py_int (- 9007199254740992) = - 9007199254740992"
    using py_int_of_int [of "- 9007199254740992"] by simp
  then have b0: "float_bucket (- 1) 9007199254740993 = Inr (- 9007199254740992)"
    by (simp add: float_bucket_def wx float_rem_def m0 float_add_def float_sub_def)
  have b1: "float_bucket 0 9007199254740993 = Inr 0"
    by (simp add: float_bucket_def wx float_rem_def fmod_def py_int_def float_sub_def)
  have b2: "float_bucket 1 9007199254740993 = Inr 0"
    by (simp add: float_bucket_def wx float_rem_def fmod_def py_int_def float_sub_def)
  have idx: "[0 .. 3 - 1] = [0, 1, 2::int]" by (simp add: upto_rec1)
  have spread: "spread_packets 9007199254740993 (- 1) 1 [0, 1, 2] []
                  = Inr [(- 9007199254740992, 1), (0, 2)]"
    by (simp add: t0 t1 t2 b0 b1 b2 dict_set_def dict_get_def)
  have p2: "int_bucket (py_int (timestamp (first_dt epoch_flow))) (aggregation_time ?config)
              = Inr (- 9007199254740993)"
    by (simp only: first agg fb)
  have p3: "int_bucket (py_int (timestamp (last_dt epoch_flow))) (aggregation_time ?config)
              = Inr 0"
    by (simp only: last agg lb)
  have p5: "float_truediv (float_sub (timestamp (last_dt epoch_flow))
              (timestamp (first_dt epoch_flow))) (float_of_int (in_packets epoch_flow - 1))
              = Inr 1"
    by (simp only: first last n delta)
  have bs0: "dict_get (if \<not> dict_contains [] (IPv4Address 0xC0000200)
                       then dict_set [] (IPv4Address 0xC0000200) [] else [])
               (IPv4Address 0xC0000200) [] = []"
    by (simp add: dict_contains_def dict_set_def dict_get_def)
  have p6: "spread_packets (aggregation_time ?config) (timestamp (first_dt epoch_flow)) 1
              [0 .. in_packets epoch_flow - 1]
              (dict_get (if \<not> dict_contains [] (IPv4Address 0xC0000200)
                         then dict_set [] (IPv4Address 0xC0000200) [] else [])
                 (IPv4Address 0xC0000200) [])
            = Inr [(- 9007199254740992, 1), (0, 2)]"
    by (simp only: agg first n idx bs0 spread)
  have "aggregate_flows [] ?config epoch_flow
          = Inr [(IPv4Address 0xC0000200, [(- 9007199254740992, 1), (0, 2)])]"
    using aggregate_flows_spread [OF src p2 p3 _ p5 p6]
    by (simp add: dict_contains_def dict_set_def)
  moreover have "int_mod (- 9007199254740992) 9007199254740993 = Inr 1"
    by (simp add: int_mod_def)
  moreover have "\<not> buckets_aligned 9007199254740993
       [(IPv4Address 0xC0000200, [(- 9007199254740992, 1), (0, 2)])]"
    by (simp add: buckets_aligned_def keys_aligned_def)
  moreover note p2 [unfolded agg] p3 [unfolded agg]
  ultimately show ?thesis by (simp only: simp_thms)
qed

section \<open>Properties of write\_allowlist\_as\_csv\<close>

subsection \<open>Fields that need no quoting\<close>

lemma digit_plain:
  fixes n :: nat
  assumes "n < 10"
  shows "\<not> csv_special (char_of (48 + n))"
proof -
  have "(of_char (char_of (48 + n)) :: nat) = 48 + n" using assms by simp
  then show ?thesis
    by (auto simp: csv_special_def CR_def LF_def
          dest!: arg_cong [where f = "of_char :: char \<Rightarrow> nat"])
qed

lemma str_nat_plain: "\<not> list_ex csv_special (str_nat n)"
proof (induction n rule: str_nat.induct)
  case (1 n)
  show ?case
  proof (cases "n < 10")
    case True
    then show ?thesis using digit_plain [of n] by (subst str_nat.simps) simp
  next
    case False
    moreover have "n mod 10 < 10" by simp
    ultimately show ?thesis
      using 1 digit_plain [of "n mod 10"] by (subst str_nat.simps) simp
  qed
qed

lemma str_int_plain: "\<not> list_ex csv_special (str_int i)"
  using str_nat_plain by (simp add: str_int_def csv_special_def CR_def LF_def)

lemma str_ipv4_plain: "\<not> list_ex csv_special (str_ipv4 a)"
  using str_nat_plain by (simp add: str_ipv4_def csv_special_def CR_def LF_def)

lemma csv_field_plain: "\<not> list_ex csv_special s \<Longrightarrow> csv_field s = s"
  by (simp add: csv_field_def)

lemma csv_writerow_pair:
  assumes "\<not> list_ex csv_special f" and "\<not> list_ex csv_special g"
  shows "csv_writerow [f, g] = f @ '','' @ g @ [CR, LF]"
  using assms by (simp add: csv_writerow_def csv_field_plain)

lemma header_plain: "\<not> list_ex csv_special ''ip''" "\<not> list_ex csv_special ''packets''"
  by (simp_all add: csv_special_def CR_def LF_def)

subsection \<open>The exploded form of an IPv6 address\<close>

lemma hex_digit_plain:
  assumes "n < 16"
  shows "\<not> csv_special (hex_digit n)"
proof (cases "n < 10")
  case True
  then show ?thesis using digit_plain [of n] by (simp add: hex_digit_def)
next
  case False
  have "(of_char (char_of (87 + n)) :: nat) = 87 + n" using assms by simp
  then have "\<not> csv_special (char_of (87 + n))"
    by (auto simp: csv_special_def CR_def LF_def
          dest!: arg_cong [where f = "of_char :: char \<Rightarrow> nat"])
  with False show ?thesis by (simp add: hex_digit_def)
qed

lemma hextet_bits: "unat (x AND (0xFFFF :: 128 word)) = unat x mod 65536"
proof -
  have m: "(0xFFFF :: 128 word) = mask 16" by (simp add: mask_eq_exp_minus_1)
  have "unat (x AND (0xFFFF :: 128 word)) = unat (take_bit 16 x)"
    unfolding m by (simp only: take_bit_eq_mask)
  also have "\<dots> = take_bit 16 (unat x)"
    by (simp add: unsigned_take_bit_eq)
  finally show ?thesis by (simp add: take_bit_eq_mod)
qed

lemma hextet_arith:
  "hextet a i =
     (let h = unat a div 2 ^ (112 - 16 * i) mod 65536
      in [hex_digit (h div 4096), hex_digit (h div 256 mod 16),
          hex_digit (h div 16 mod 16), hex_digit (h mod 16)])"
  by (simp only: hextet_def hextet_bits unat_drop_bit_eq) (simp only: drop_bit_eq_div)

lemma hextet_plain: "\<not> list_ex csv_special (hextet a i)"
proof -
  define h where "h = unat a div 2 ^ (112 - 16 * i) mod 65536"
  have "h < 65536" by (simp add: h_def)
  then have "h div 4096 < 16" by simp
  moreover have "h div 256 mod 16 < 16" "h div 16 mod 16 < 16" "h mod 16 < 16" by simp_all
  ultimately show ?thesis
    using hex_digit_plain by (simp add: hextet_arith h_def [symmetric])
qed

lemma ipv6_exploded_plain: "\<not> list_ex csv_special (ipv6_exploded a)"
  using hextet_plain by (simp add: ipv6_exploded_def csv_special_def CR_def LF_def)

lemma hex_digits:
  "hex_digit 0 = CHR ''0''" "hex_digit (Suc 0) = CHR ''1''" "hex_digit 2 = CHR ''2''"
  "hex_digit 8 = CHR ''8''" "hex_digit 11 = CHR ''b''" "hex_digit 13 = CHR ''d''"
  by code_simp+

lemma example_rows:
  "str_ip ipv6_exploded (IPv4Address 0xC0000200) = ''192.0.2.0''"
  "str_int 200 = ''200''"
  "str_int 150 = ''150''"
  by code_simp+

lemma example_row_ipv6:
  "str_ip ipv6_exploded (IPv6Address 0x20010DB8000000000000000000000000)
     = ''2001:0db8:0000:0000:0000:0000:0000:0000''"
  by (simp add: str_ip_def ipv6_exploded_def hextet_arith hex_digits)

subsection \<open>The text written\<close>

text \<open>
  C8, as the code has it. For every allowlist, \<open>write_allowlist_as_csv\<close> writes the
  header row \<open>ip,packets\<close> and then one row \<open>ip,packets\<close> per entry, in the order of
  the entries, and ends every row, the header too, with the line terminator of the
  default dialect of the \<open>csv\<close> module, carriage return and line feed. No field is
  quoted, for every text of an IPv6 address that holds no comma, quote, carriage
  return or line feed.
\<close>

theorem write_allowlist_as_csv_format:
  assumes "\<forall>a. \<not> list_ex csv_special (str6 a)"
  shows "write_allowlist_as_csv str6 allowlist
           = ''ip,packets'' @ [CR, LF]
             @ concat (map (\<lambda>(ip, packets). str_ip str6 ip @ '','' @ str_int packets @ [CR, LF])
                        allowlist)"
proof -
  have ip: "\<not> list_ex csv_special (str_ip str6 ip)" for ip
    using assms str_ipv4_plain by (cases ip) (simp_all add: str_ip_def)
  have row: "csv_writerow [str_ip str6 ip, str_int packets]
               = str_ip str6 ip @ '','' @ str_int packets @ [CR, LF]" for ip packets
    by (rule csv_writerow_pair [OF ip str_int_plain])
  have "(\<lambda>(ip, packets). csv_writerow [str_ip str6 ip, str_int packets])
      = (\<lambda>(ip, packets). str_ip str6 ip @ '','' @ str_int packets @ [CR, LF])"
    by (simp add: row fun_eq_iff)
  then show ?thesis
    using csv_writerow_pair [OF header_plain]
    by (simp add: write_allowlist_as_csv_def)
qed

text \<open>
  An allowlist of the networks 192.0.2.0 and 2001:db8::, the IPv6 address written in
  its exploded form.
\<close>

theorem write_allowlist_as_csv_format_witness:
  "(\<forall>a. \<not> list_ex csv_special (ipv6_exploded a))
 \<and> write_allowlist_as_csv ipv6_exploded
     [(IPv4Address 0xC0000200, 200), (IPv6Address 0x20010DB8000000000000000000000000, 150)]
   = ''ip,packets'' @ [CR, LF] @ ''192.0.2.0,200'' @ [CR, LF]
     @ ''2001:0db8:0000:0000:0000:0000:0000:0000,150'' @ [CR, LF]"
  using write_allowlist_as_csv_format [of ipv6_exploded
     "[(IPv4Address 0xC0000200, 200), (IPv6Address 0x20010DB8000000000000000000000000, 150)]"]
    ipv6_exploded_plain
  by (simp add: example_rows example_row_ipv6)

text \<open>
  C8 as stated fails on the line endings. The text written for the allowlist of
  192.0.2.0 with 200 packets, cut at the line feeds, has the lines \<open>ip,packets\<close> and
  \<open>192.0.2.0,200\<close> each followed by a carriage return: read with line feed as the
  line ending, every line ends in white space. The same holds for the header of the
  empty allowlist.
\<close>

theorem lf_line_endings_counterexample:
  "write_allowlist_as_csv ipv6_exploded [(IPv4Address 0xC0000200, 200)]
     = ''ip,packets'' @ [CR, LF] @ ''192.0.2.0,200'' @ [CR, LF]
 \<and> split_on LF (write_allowlist_as_csv ipv6_exploded [(IPv4Address 0xC0000200, 200)])
     = [''ip,packets'' @ [CR], ''192.0.2.0,200'' @ [CR], []]
 \<and> \<not> lf_lines_clean (write_allowlist_as_csv ipv6_exploded [(IPv4Address 0xC0000200, 200)])
 \<and> \<not> lf_lines_clean (write_allowlist_as_csv ipv6_exploded [])"
  by code_simp

section \<open>Properties of main\<close>

subsection \<open>How a run ends\<close>

lemma main_no_files: "arg_files args = [] \<Longrightarrow> main env args = Inl (SystemExit 2)"
  by (simp add: main_def parse_args_def)

lemma parse_args_Inr: "parse_args env args = Inr args' \<Longrightarrow> args' = args"
  by (simp add: parse_args_def split: if_splits)

lemma main_Inr:
  assumes "main env args = Inr result"
  obtains config results now_ts allowlist where
    "parse_args env args = Inr args"
    "load_configuration env args = Inr config"
    "pool_results (map (\<lambda>file. process_netflow_file (env_nfdump_json env file) config)
                     (arg_files args)) = Inr results"
    "reference_time env args = Inr now_ts"
    "build_allowlist (foldl merge_data [] results) config now_ts = Inr allowlist"
    "emit env args allowlist = Inr result"
proof -
  from assms obtain args' where p: "parse_args env args = Inr args'"
    by (auto simp: main_def split: sum.splits)
  then have "args' = args" by (rule parse_args_Inr)
  with p have "parse_args env args = Inr args" by simp
  with assms that show ?thesis
    by (auto simp: main_def split: sum.splits)
qed

lemma main_without_now:
  assumes "arg_now args = None"
  shows "\<exists>e. main env args = Inl e"
proof (cases "main env args")
  case (Inl e)
  then show ?thesis by blast
next
  case (Inr result)
  then obtain now_ts where "reference_time env args = Inr now_ts"
    by (rule main_Inr)
  with assms show ?thesis
    by (simp add: reference_time_def optional_datetime_def)
qed

lemma main_summary:
  assumes "main env args = Inr result" and "arg_output args = None"
  shows "\<exists>n. stdout result = ''The allowlist contains '' @ str_nat n @ '' entries.'' @ [LF]"
    and "written result = None"
proof -
  from assms(1) obtain allowlist where "emit env args allowlist = Inr result"
    by (rule main_Inr)
  with assms(2) have r: "result = \<lparr> stdout = ''The allowlist contains ''
      @ str_nat (length allowlist) @ '' entries.'' @ [LF], written = None \<rparr>"
    by (simp add: emit_def)
  then show "\<exists>n. stdout result = ''The allowlist contains '' @ str_nat n @ '' entries.'' @ [LF]"
    by (intro exI [of _ "length allowlist"]) simp
  from r show "written result = None" by simp
qed

text \<open>
  No run returns without \<open>-n\<close>, with or without \<open>-o\<close>; a run without \<open>-o\<close> that
  returns has printed the summary line and nothing else, and has written no file.
\<close>

lemma main_returns_only_with_now:
  "(arg_now args = None \<longrightarrow> (\<exists>e. main env args = Inl e))
 \<and> (arg_output args = None \<and> main env args = Inr result
      \<longrightarrow> arg_now args \<noteq> None
        \<and> (\<exists>n. stdout result = ''The allowlist contains '' @ str_nat n @ '' entries.'' @ [LF])
        \<and> written result = None)"
proof -
  have "arg_now args \<noteq> None" if "main env args = Inr result"
    using that main_without_now [of args env] by auto
  then show ?thesis
    using main_without_now [of args env] main_summary [of env args result] by blast
qed

lemma str_nat_0: "str_nat 0 = ''0''"
  by code_simp

lemma str_nat_Suc_0: "str_nat (Suc 0) = ''1''"
  by code_simp

subsection \<open>Runs in the example environment\<close>

lemma example_file_processed:
  "process_netflow_file
     ([hourly_flow 0 200, hourly_flow 1 150, hourly_flow 2 130], None) default_configuration
   = Inr [(IPv4Address 0xC0000200, [(1704067200, 200), (1704070800, 150), (1704074400, 130)])]"
  by (simp add: process_netflow_file_def stream_filter_def
        hourly_flow_def aggregate_flows_def default_configuration_def
        source_network_def network_address_def prefix_mask_def mask_eq_exp_minus_1
        timestamp_def instant_us_def py_int_def int_bucket_def int_mod_def
        dict_contains_def dict_set_def dict_get_def)

lemma empty_file_processed:
  "process_netflow_file ([], None) default_configuration = Inr []"
  by (simp add: process_netflow_file_def stream_filter_def)

lemma example_now:
  "fromisoformat_seconds ''2024-01-01T05:00:00''
     = Inr \<lparr>clock_us = 1704085200000000, tzinfo = None\<rparr>"
  by (simp add: fromisoformat_seconds_def field_value_def digit_value_def read_offset_def
      days_in_month_def is_leap_def clock_reading_def ymd2ord_def days_before_year_def
      days_before_month_def upt_rec_numeral)

lemma example_reference_time:
  "arg_now args = Some ''2024-01-01T05:00:00'' \<Longrightarrow>
   reference_time example_environment args = Inr 1704085200"
  by (simp add: reference_time_def optional_datetime_def example_environment_def example_now
        replace_tzinfo_def utc_def timestamp_def instant_us_def)

lemma example_allowlist:
  "build_allowlist
     [(IPv4Address 0xC0000200, [(1704067200, 200), (1704070800, 150), (1704074400, 130)])]
     default_configuration 1704085200
   = Inr [(IPv4Address 0xC0000200, 200)]"
  by (simp add: default_configuration_def py_int_def in_window_def valid_traffic_def
        build_allowlist_def int_bucket_def int_mod_def py_max_def dict_set_def)

lemma empty_allowlist: "build_allowlist [] default_configuration 1704085200 = Inr []"
  by (simp add: default_configuration_def py_int_def build_allowlist_def int_bucket_def
        int_mod_def)

lemma example_merged:
  "merge_data []
     [(IPv4Address 0xC0000200, [(1704067200, 200), (1704070800, 150), (1704074400, 130)])]
   = [(IPv4Address 0xC0000200, [(1704067200, 200), (1704070800, 150), (1704074400, 130)])]"
  by (simp add: merge_data_def dict_contains_def dict_set_def)

lemma example_files:
  "env_nfdump_json example_environment ''nfcapd.1''
     = ([hourly_flow 0 200, hourly_flow 1 150, hourly_flow 2 130], None)"
  "env_nfdump_json example_environment ''nfcapd.2'' = ([], None)"
  by (simp_all add: example_environment_def)

subsection \<open>The empty result\<close>

text \<open>
  C7, as the code has it. A command line without input files is an error of usage:
  \<open>FILES\<close> is declared with \<open>nargs="+"\<close>, and the run ends in \<open>parse_args\<close> with
  exit status 2. A run with input files whose arguments are accepted, whose
  configuration loads, whose files are all processed, whose reference time is read
  from \<open>-n\<close> and whose allowlist is empty is not an error: without \<open>-o\<close> it prints
  \<open>The allowlist contains 0 entries.\<close> and the exit status is 0.
\<close>

theorem main_empty_allowlist:
  "(arg_files args = []
      \<longrightarrow> main env args = Inl (SystemExit 2) \<and> exit_status (main env args) = 2)
 \<and> (parse_args env args = Inr args
      \<and> load_configuration env args = Inr config
      \<and> pool_results (map (\<lambda>file. process_netflow_file (env_nfdump_json env file) config)
                          (arg_files args)) = Inr results
      \<and> reference_time env args = Inr now_ts
      \<and> build_allowlist (foldl merge_data [] results) config now_ts = Inr []
      \<and> arg_output args = None
      \<longrightarrow> main env args
            = Inr \<lparr> stdout = ''The allowlist contains 0 entries.'' @ [LF], written = None \<rparr>
        \<and> exit_status (main env args) = 0)"
proof -
  have none: "main env args = Inl (SystemExit 2) \<and> exit_status (main env args) = 2"
    if "arg_files args = []"
    using main_no_files [OF that, of env] by (simp add: exit_status_def)
  have empty: "main env args
            = Inr \<lparr> stdout = ''The allowlist contains 0 entries.'' @ [LF], written = None \<rparr>
        \<and> exit_status (main env args) = 0"
    if "parse_args env args = Inr args" "load_configuration env args = Inr config"
      "pool_results (map (\<lambda>file. process_netflow_file (env_nfdump_json env file) config)
                          (arg_files args)) = Inr results"
      "reference_time env args = Inr now_ts"
      "build_allowlist (foldl merge_data [] results) config now_ts = Inr []"
      "arg_output args = None"
    using that by (simp add: main_def emit_def str_nat_0 exit_status_def)
  from none empty show ?thesis by blast
qed

text \<open>
  In the example environment: the file \<open>nfcapd.2\<close> holds no record, and the run with
  \<open>-n 2024-01-01T05:00:00\<close> on it prints the summary of the empty allowlist; the
  same command line without the file ends with status 2.
\<close>

theorem main_empty_allowlist_witness:
  "main example_environment
     \<lparr> arg_config = None, arg_now = Some ''2024-01-01T05:00:00'', arg_output = None,
       arg_files = [''nfcapd.2''] \<rparr>
   = Inr \<lparr> stdout = ''The allowlist contains 0 entries.'' @ [LF], written = None \<rparr>
 \<and> exit_status (main example_environment
     \<lparr> arg_config = None, arg_now = Some ''2024-01-01T05:00:00'', arg_output = None,
       arg_files = [''nfcapd.2''] \<rparr>) = 0
 \<and> exit_status (main example_environment
     \<lparr> arg_config = None, arg_now = Some ''2024-01-01T05:00:00'', arg_output = None,
       arg_files = [] \<rparr>) = 2"
proof -
  let ?args = "\<lparr> arg_config = None, arg_now = Some ''2024-01-01T05:00:00'',
                 arg_output = None, arg_files = [''nfcapd.2''] \<rparr>"
  let ?none = "\<lparr> arg_config = None, arg_now = Some ''2024-01-01T05:00:00'',
                 arg_output = None, arg_files = [] \<rparr>"
  have p: "parse_args example_environment ?args = Inr ?args"
    by (simp add: parse_args_def)
  have c: "load_configuration example_environment ?args = Inr default_configuration"
    by (simp add: load_configuration_def)
  have q: "pool_results (map (\<lambda>file. process_netflow_file
             (env_nfdump_json example_environment file) default_configuration)
             (arg_files ?args)) = Inr [[]]"
    by (simp add: example_files empty_file_processed)
  have r: "reference_time example_environment ?args = Inr 1704085200"
    by (rule example_reference_time) simp
  have a: "build_allowlist (foldl merge_data [] [[]]) default_configuration 1704085200 = Inr []"
    by (simp add: merge_data_def empty_allowlist)
  have o: "arg_output ?args = None" by simp
  have n: "arg_files ?none = []" by simp
  from main_empty_allowlist [of ?args example_environment default_configuration "[[]]" 1704085200]
    p c q r a o
  have "main example_environment ?args
          = Inr \<lparr> stdout = ''The allowlist contains 0 entries.'' @ [LF], written = None \<rparr>
      \<and> exit_status (main example_environment ?args) = 0"
    by blast
  moreover from main_empty_allowlist [of ?none example_environment] n
  have "exit_status (main example_environment ?none) = 2"
    by blast
  ultimately show ?thesis by blast
qed

text \<open>
  C7 as stated fails for zero input files: the command line \<open>-n 2024-01-01T05:00:00\<close>
  without a file is refused by \<open>argparse\<close>, the exit status is 2 and no summary is
  printed.
\<close>

theorem no_files_counterexample:
  "main example_environment
     \<lparr> arg_config = None, arg_now = Some ''2024-01-01T05:00:00'', arg_output = None,
       arg_files = [] \<rparr>
   = Inl (SystemExit 2)
 \<and> exit_status (main example_environment
     \<lparr> arg_config = None, arg_now = Some ''2024-01-01T05:00:00'', arg_output = None,
       arg_files = [] \<rparr>) \<noteq> 0"
  by (simp add: main_def parse_args_def exit_status_def)

subsection \<open>A run without a reference time\<close>

text \<open>
  C9 at a concrete command line. \<open>-n\<close> is declared optional and
  \<open>optional_datetime\<close> answers \<open>None\<close> to \<open>None\<close>, but \<open>main\<close> calls
  \<open>timestamp\<close> on that answer. The run on the file \<open>nfcapd.1\<close> without \<open>-n\<close> and
  without \<open>-o\<close> reads the file and then ends with \<open>AttributeError\<close>, exit status 1,
  and prints no summary; the same command line with \<open>-n 2024-01-01T05:00:00\<close> prints
  the summary of the allowlist of one entry.
\<close>

theorem main_without_now_raises:
  "main example_environment
     \<lparr> arg_config = None, arg_now = None, arg_output = None, arg_files = [''nfcapd.1''] \<rparr>
   = Inl AttributeError
 \<and> exit_status (main example_environment
     \<lparr> arg_config = None, arg_now = None, arg_output = None, arg_files = [''nfcapd.1''] \<rparr>)
   = 1
 \<and> main example_environment
     \<lparr> arg_config = None, arg_now = Some ''2024-01-01T05:00:00'', arg_output = None,
       arg_files = [''nfcapd.1''] \<rparr>
   = Inr \<lparr> stdout = ''The allowlist contains 1 entries.'' @ [LF], written = None \<rparr>"
proof -
  let ?args = "\<lparr> arg_config = None, arg_now = None, arg_output = None,
                 arg_files = [''nfcapd.1''] \<rparr>"
  let ?dated = "\<lparr> arg_config = None, arg_now = Some ''2024-01-01T05:00:00'',
                 arg_output = None, arg_files = [''nfcapd.1''] \<rparr>"
  have p: "parse_args example_environment ?args = Inr ?args"
    "parse_args example_environment ?dated = Inr ?dated"
    by (simp_all add: parse_args_def)
  have c: "load_configuration example_environment ?args = Inr default_configuration"
    "load_configuration example_environment ?dated = Inr default_configuration"
    by (simp_all add: load_configuration_def)
  have r: "reference_time example_environment ?args = Inl AttributeError"
    by (simp add: reference_time_def optional_datetime_def)
  have d: "reference_time example_environment ?dated = Inr 1704085200"
    by (rule example_reference_time) simp
  have "main example_environment ?args = Inl AttributeError"
    by (simp add: main_def p c r example_files example_file_processed)
  moreover have "main example_environment ?dated
      = Inr \<lparr> stdout = ''The allowlist contains 1 entries.'' @ [LF], written = None \<rparr>"
    by (simp add: main_def p c d example_files example_file_processed example_merged
          example_allowlist emit_def str_nat_Suc_0)
  ultimately show ?thesis by (simp add: exit_status_def)
qed

section \<open>Properties of optional\_datetime\<close>

lemma iso_plus2:
  "fromisoformat_seconds ''2024-01-01T02:00:00+02:00''
     = Inr \<lparr>clock_us = 1704074400000000, tzinfo = Some 7200000000\<rparr>"
  by (simp add: fromisoformat_seconds_def field_value_def digit_value_def read_offset_def
      days_in_month_def is_leap_def clock_reading_def ymd2ord_def days_before_year_def
      days_before_month_def upt_rec_numeral)

lemma iso_utc:
  "fromisoformat_seconds ''2024-01-01T00:00:00+00:00''
     = Inr \<lparr>clock_us = 1704067200000000, tzinfo = Some 0\<rparr>"
  by (simp add: fromisoformat_seconds_def field_value_def digit_value_def read_offset_def
      days_in_month_def is_leap_def clock_reading_def ymd2ord_def days_before_year_def
      days_before_month_def upt_rec_numeral)

text \<open>
  C10. For every string that \<open>datetime.fromisoformat\<close> reads as a datetime with a
  numeric UTC offset, \<open>optional_datetime\<close> returns the same clock reading with the
  time zone UTC: the offset is dropped and the clock reading is not adjusted, so the
  instant decoded is later than the instant written by the offset. Two strings that
  denote one instant with different offsets are decoded to different instants.
  \<open>NfFlow.from_dict\<close> decodes the first and last timestamp of a record this way, and
  \<open>main\<close> the argument of \<open>--now\<close>.
\<close>

theorem optional_datetime_discards_offset:
  assumes "fromisoformat s = Inr dt" and "tzinfo dt = Some off"
    and "fromisoformat s' = Inr dt'" and "tzinfo dt' = Some off'"
  shows "optional_datetime fromisoformat (Some s) = Inr (Some (replace_tzinfo dt utc))
       \<and> clock_us (replace_tzinfo dt utc) = clock_us dt
       \<and> instant_us (replace_tzinfo dt utc) = instant_us dt + off
       \<and> (instant_us dt = instant_us dt' \<and> off \<noteq> off'
            \<longrightarrow> instant_us (replace_tzinfo dt utc) \<noteq> instant_us (replace_tzinfo dt' utc))
       \<and> (get key = Some s
            \<longrightarrow> from_dict_timestamp fromisoformat get key prefixed_key
                  = Inr (replace_tzinfo dt utc))
       \<and> (env_fromisoformat env = fromisoformat \<and> arg_now args = Some s
            \<longrightarrow> reference_time env args = Inr (timestamp (replace_tzinfo dt utc)))"
  using assms
  by (auto simp: optional_datetime_def replace_tzinfo_def utc_def instant_us_def
        from_dict_timestamp_def reference_time_def)

text \<open>
  The strings \<open>2024-01-01T02:00:00+02:00\<close> and \<open>2024-01-01T00:00:00+00:00\<close> denote
  one instant; they are decoded to 02:00 UTC and 00:00 UTC of that day, as the
  timestamp of a record and as the argument of \<open>--now\<close>.
\<close>

theorem optional_datetime_discards_offset_witness:
  "fromisoformat_seconds ''2024-01-01T02:00:00+02:00''
     = Inr \<lparr>clock_us = 1704074400000000, tzinfo = Some 7200000000\<rparr>
 \<and> fromisoformat_seconds ''2024-01-01T00:00:00+00:00''
     = Inr \<lparr>clock_us = 1704067200000000, tzinfo = Some 0\<rparr>
 \<and> instant_us \<lparr>clock_us = 1704074400000000, tzinfo = Some 7200000000\<rparr>
     = instant_us \<lparr>clock_us = 1704067200000000, tzinfo = Some 0\<rparr>
 \<and> optional_datetime fromisoformat_seconds (Some ''2024-01-01T02:00:00+02:00'')
     = Inr (Some \<lparr>clock_us = 1704074400000000, tzinfo = Some 0\<rparr>)
 \<and> optional_datetime fromisoformat_seconds (Some ''2024-01-01T00:00:00+00:00'')
     = Inr (Some \<lparr>clock_us = 1704067200000000, tzinfo = Some 0\<rparr>)
 \<and> instant_us \<lparr>clock_us = 1704074400000000, tzinfo = Some 0\<rparr>
     \<noteq> instant_us \<lparr>clock_us = 1704067200000000, tzinfo = Some 0\<rparr>
 \<and> from_dict_timestamp fromisoformat_seconds
       (map_of [(''first'', ''2024-01-01T02:00:00+02:00'')]) ''first'' ''t_first''
     = Inr \<lparr>clock_us = 1704074400000000, tzinfo = Some 0\<rparr>
 \<and> reference_time example_environment
       \<lparr> arg_config = None, arg_now = Some ''2024-01-01T02:00:00+02:00'', arg_output = None,
         arg_files = [''nfcapd.1''] \<rparr>
     = Inr 1704074400"
  using optional_datetime_discards_offset
    [of fromisoformat_seconds "''2024-01-01T02:00:00+02:00''"
        "\<lparr>clock_us = 1704074400000000, tzinfo = Some 7200000000\<rparr>" 7200000000
        "''2024-01-01T00:00:00+00:00''"
        "\<lparr>clock_us = 1704067200000000, tzinfo = Some 0\<rparr>" 0
        "map_of [(''first'', ''2024-01-01T02:00:00+02:00'')]" "''first''" "''t_first''"
        example_environment
        "\<lparr> arg_config = None, arg_now = Some ''2024-01-01T02:00:00+02:00'', arg_output = None,
           arg_files = [''nfcapd.1''] \<rparr>"]
    optional_datetime_discards_offset
    [of fromisoformat_seconds "''2024-01-01T00:00:00+00:00''"
        "\<lparr>clock_us = 1704067200000000, tzinfo = Some 0\<rparr>" 0
        "''2024-01-01T02:00:00+02:00''"
        "\<lparr>clock_us = 1704074400000000, tzinfo = Some 7200000000\<rparr>" 7200000000]
  by (simp add: iso_plus2 iso_utc replace_tzinfo_def utc_def instant_us_def timestamp_def
        example_environment_def)

end
